theory Spec2Isabelle
  imports Complex_Main "HOL-Library.Multiset"
begin

section \<open>TrackIt: price change analysis, alert decisions and the scheduled sweep\<close>

text \<open>
  A shallow embedding of \<^verbatim>\<open>src/services/priceHelper.js\<close>, \<^verbatim>\<open>src/services/plans.js\<close> and
  \<^verbatim>\<open>src/scheduler/cronJobs.js\<close>.

  Conventions of the embedding:
  \<^item> a JavaScript number is the real number its IEEE 754 double denotes, and one that may
    be \<^verbatim>\<open>null\<close> (a nullable REAL column, a missing price) is a \<open>real option\<close>, with
    \<open>None\<close> for \<^verbatim>\<open>null\<close>; every arithmetic operation and every decimal literal is
    rounded to the nearest double (\<open>roundDouble\<close>), comparisons are exact; \<^verbatim>\<open>NaN\<close> and
    the infinities (results of magnitude \<open>2 ^ 1024\<close> or more) are outside the model;
  \<^item> JavaScript truthiness (\<^verbatim>\<open>!x\<close>, \<^verbatim>\<open>x && ...\<close>) is the function \<open>truthy\<close>;
  \<^item> the formatted strings of the result objects (\<^verbatim>\<open>formattedPercent\<close>, \<^verbatim>\<open>emoji\<close>, the
    text of a reason) are not modelled; a reason is a constructor carrying the numbers the
    text is built from.
\<close>

subsection \<open>JavaScript values\<close>

fun truthy :: "real option \<Rightarrow> bool" where
  "truthy None = False"
| "truthy (Some x) = (x \<noteq> 0)"

text \<open>\<^verbatim>\<open>ToNumber\<close>: \<^verbatim>\<open>null\<close> compares as 0.\<close>

fun toNumber :: "real option \<Rightarrow> real" where
  "toNumber None = 0"
| "toNumber (Some x) = x"

subsection \<open>Double-precision arithmetic\<close>

text \<open>
  \<open>pow2 e\<close> is \<open>2\<close> to the power \<open>e\<close>. \<open>roundEven\<close> rounds to the nearest integer,
  a tie going to the even one. \<open>binade x\<close> is the exponent of the leading bit of \<open>x\<close>,
  the \<open>k\<close> with \<open>2 ^ k \<le> \<bar>x\<bar> < 2 ^ (k + 1)\<close>; the doubles near \<open>x\<close> are the multiples of
  \<open>pow2 (ulpExp x)\<close>: 53 significant bits, and no exponent below that of the subnormals.
  \<open>roundDouble\<close> is rounding to the nearest double, ties to even, which is how IEEE 754
  defines the result of \<^verbatim>\<open>-\<close>, \<^verbatim>\<open>*\<close>, \<^verbatim>\<open>/\<close> and the value of a decimal literal.
\<close>

definition pow2 :: "int \<Rightarrow> real" where
  "pow2 e = (if 0 \<le> e then 2 ^ nat e else 1 / 2 ^ nat (- e))"

definition roundEven :: "real \<Rightarrow> int" where
  "roundEven y =
     (if y - of_int \<lfloor>y\<rfloor> < 1 / 2 then \<lfloor>y\<rfloor>
      else if y - of_int \<lfloor>y\<rfloor> > 1 / 2 then \<lfloor>y\<rfloor> + 1
      else if even \<lfloor>y\<rfloor> then \<lfloor>y\<rfloor> else \<lfloor>y\<rfloor> + 1)"

definition binade :: "real \<Rightarrow> int" where
  "binade x = \<lfloor>log 2 \<bar>x\<bar>\<rfloor>"

definition ulpExp :: "real \<Rightarrow> int" where
  "ulpExp x = max (binade x - 52) (- 1074)"

definition roundDouble :: "real \<Rightarrow> real" where
  "roundDouble x = (if x = 0 then 0 else of_int (roundEven (x / pow2 (ulpExp x))) * pow2 (ulpExp x))"

definition jsLit :: "real \<Rightarrow> real" where
  "jsLit q = roundDouble q"

definition jsSub :: "real \<Rightarrow> real \<Rightarrow> real" where
  "jsSub x y = roundDouble (x - y)"

definition jsDiv :: "real \<Rightarrow> real \<Rightarrow> real" where
  "jsDiv x y = roundDouble (x / y)"

definition jsMul :: "real \<Rightarrow> real \<Rightarrow> real" where
  "jsMul x y = roundDouble (x * y)"

text \<open>
  The decimal that \<^verbatim>\<open>x.toFixed(1)\<close> prints: the multiple of 1/10 nearest to the exact
  value of \<open>x\<close>, a tie going to the larger magnitude; the sign is handled first, as
  \<^verbatim>\<open>Number.prototype.toFixed\<close> does.
\<close>

definition toFixed1 :: "real \<Rightarrow> real" where
  "toFixed1 x =
     (if x < 0 then - (real_of_int \<lfloor>- x * 10 + 1 / 2\<rfloor> / 10)
      else real_of_int \<lfloor>x * 10 + 1 / 2\<rfloor> / 10)"

subsection \<open>priceHelper.js\<close>

text \<open>
  \<^verbatim>\<open>const MIN_DROP_PERCENT = parseFloat(process.env.MIN_DROP_PERCENT) || 2.0\<close>.
  The argument is the parsed environment variable, \<open>None\<close> when it is absent or not a
  number. The functions below take the resulting threshold as their first argument.
\<close>

definition MIN_DROP_PERCENT :: "real option \<Rightarrow> real" where
  "MIN_DROP_PERCENT env = (if truthy env then toNumber env else 2)"

datatype direction = Down | Up | Unchanged

record priceChange =
  absoluteChange :: real
  percentChange :: real
  direction :: direction
  isMeaningful :: bool
  isDropped :: bool
  isIncreased :: bool

text \<open>
  The object of the guard branch has no \<^verbatim>\<open>isDropped\<close> and no \<^verbatim>\<open>isIncreased\<close> property;
  reading them gives \<^verbatim>\<open>undefined\<close>, which is falsy, hence \<open>False\<close> here.
\<close>

definition calculatePriceChange :: "real \<Rightarrow> real option \<Rightarrow> real option \<Rightarrow> priceChange" where
  "calculatePriceChange minDrop oldPrice newPrice =
     (if \<not> truthy oldPrice \<or> \<not> truthy newPrice \<or> toNumber oldPrice \<le> 0 \<or> toNumber newPrice \<le> 0
      then \<lparr>absoluteChange = 0, percentChange = 0, direction = Unchanged,
            isMeaningful = False, isDropped = False, isIncreased = False\<rparr>
      else
        let absChange = jsSub (toNumber oldPrice) (toNumber newPrice);
            pctChange = jsMul (jsDiv absChange (toNumber oldPrice)) 100;
            absPercent = \<bar>pctChange\<bar>;
            dir = (if absChange > jsLit (1 / 100) then Down
                   else if absChange < - jsLit (1 / 100) then Up
                   else Unchanged)
        in \<lparr>absoluteChange = absChange, percentChange = pctChange, direction = dir,
            isMeaningful = (dir = Down \<and> absPercent \<ge> minDrop),
            isDropped = (dir = Down), isIncreased = (dir = Up)\<rparr>)"

text \<open>
  A row of \<^verbatim>\<open>tracked_products\<close> joined with its owner's plan columns, as
  \<^verbatim>\<open>getAllActiveTrackedProducts\<close> returns it. \<open>last_checked_at\<close> is the parsed
  timestamp in milliseconds, \<open>None\<close> for SQL NULL.
\<close>

record product =
  product_id :: nat
  user_id :: nat
  telegram_id :: nat
  plan :: "string option"
  check_interval :: "string option"
  max_products :: "nat option"
  amazon_url :: string
  title :: "string option"
  current_price :: "real option"
  target_price :: "real option"
  last_alert_price :: "real option"
  last_checked_at :: "int option"

datatype priority = High | Normal

datatype alertReason =
    PriceDidNotDrop
  | AlreadyAlertedAt real
  | TargetPriceReached real
  | PriceDroppedPercent real
  | DropBelowThreshold real real

record alertDecision =
  shouldAlert :: bool
  reason :: alertReason
  change :: priceChange
  priority :: "priority option"

definition shouldTriggerAlert ::
    "real \<Rightarrow> product \<Rightarrow> real option \<Rightarrow> real option \<Rightarrow> alertDecision" where
  "shouldTriggerAlert minDrop p oldPrice newPrice =
     (let pc = calculatePriceChange minDrop oldPrice newPrice in
      if \<not> isDropped pc
      then \<lparr>shouldAlert = False, reason = PriceDidNotDrop, change = pc, priority = None\<rparr>
      else if truthy (last_alert_price p) \<and> toNumber newPrice \<ge> toNumber (last_alert_price p)
      then \<lparr>shouldAlert = False, reason = AlreadyAlertedAt (toNumber (last_alert_price p)),
            change = pc, priority = None\<rparr>
      else if truthy (target_price p) \<and> toNumber newPrice \<le> toNumber (target_price p)
      then \<lparr>shouldAlert = True, reason = TargetPriceReached (toNumber (target_price p)),
            change = pc, priority = Some High\<rparr>
      else if isMeaningful pc
      then \<lparr>shouldAlert = True, reason = PriceDroppedPercent \<bar>percentChange pc\<bar>,
            change = pc, priority = Some Normal\<rparr>
      else \<lparr>shouldAlert = False, reason = DropBelowThreshold \<bar>percentChange pc\<bar> minDrop,
            change = pc, priority = None\<rparr>)"

subsection \<open>cronJobs.js: the notification decision of the sweep\<close>

datatype notifyReason =
    NoReason
  | AlreadyAlerted real
  | TargetReached real
  | DroppedBy real
  | DroppedByAboveTarget real

record notifyDecision =
  notify :: bool
  notifyReason :: notifyReason

text \<open>\<^verbatim>\<open>((oldPrice - newPrice) / oldPrice * 100).toFixed(1)\<close>, as the decimal it prints.\<close>

definition dropPercentage :: "real \<Rightarrow> real \<Rightarrow> real" where
  "dropPercentage oldPrice newPrice = toFixed1 (jsMul (jsDiv (jsSub oldPrice newPrice) oldPrice) 100)"

text \<open>In case 3, \<^verbatim>\<open>parseFloat(dropPercentage)\<close> reads that decimal back as a double.\<close>

definition shouldSendNotification ::
    "product \<Rightarrow> real option \<Rightarrow> real option \<Rightarrow> notifyDecision" where
  "shouldSendNotification p oldPrice newPrice =
     (if \<not> truthy newPrice \<or> \<not> truthy oldPrice
      then \<lparr>notify = False, notifyReason = NoReason\<rparr>
      else if truthy (last_alert_price p) \<and> toNumber newPrice \<ge> toNumber (last_alert_price p)
      then \<lparr>notify = False, notifyReason = AlreadyAlerted (toNumber (last_alert_price p))\<rparr>
      else if truthy (target_price p) \<and> toNumber newPrice \<le> toNumber (target_price p)
      then \<lparr>notify = True, notifyReason = TargetReached (toNumber (target_price p))\<rparr>
      else if \<not> truthy (target_price p) \<and> toNumber newPrice < toNumber oldPrice
      then \<lparr>notify = True, notifyReason =
              DroppedBy (dropPercentage (toNumber oldPrice) (toNumber newPrice))\<rparr>
      else if truthy (target_price p) \<and> toNumber newPrice < toNumber oldPrice
              \<and> jsLit (dropPercentage (toNumber oldPrice) (toNumber newPrice)) \<ge> 5
      then \<lparr>notify = True, notifyReason =
              DroppedByAboveTarget (dropPercentage (toNumber oldPrice) (toNumber newPrice))\<rparr>
      else \<lparr>notify = False, notifyReason = NoReason\<rparr>)"

subsection \<open>plans.js\<close>

text \<open>
  \<^verbatim>\<open>String.prototype.toUpperCase\<close> on the ASCII letters, which is all that the plan and
  interval identifiers use.
\<close>

definition upperChar :: "char \<Rightarrow> char" where
  "upperChar c =
     (case map_of (zip ''abcdefghijklmnopqrstuvwxyz'' ''ABCDEFGHIJKLMNOPQRSTUVWXYZ'') c of
        Some d \<Rightarrow> d
      | None \<Rightarrow> c)"

definition toUpperCase :: "string \<Rightarrow> string" where
  "toUpperCase s = map upperChar s"

text \<open>\<^verbatim>\<open>x || d\<close> on a string that may be \<^verbatim>\<open>null\<close>: the empty string is falsy.\<close>

fun orElse :: "string option \<Rightarrow> string \<Rightarrow> string" where
  "orElse None d = d"
| "orElse (Some s) d = (if s = [] then d else s)"

record planConfig =
  planId :: string
  maxProducts :: nat
  checkInterval :: string

definition PLANS_FREE :: planConfig where
  "PLANS_FREE = \<lparr>planId = ''FREE'', maxProducts = 1, checkInterval = ''WEEKLY''\<rparr>"

definition PLANS_PRO :: planConfig where
  "PLANS_PRO = \<lparr>planId = ''PRO'', maxProducts = 10, checkInterval = ''DAILY''\<rparr>"

definition getPlanById :: "string \<Rightarrow> planConfig" where
  "getPlanById pid =
     (if toUpperCase pid = ''FREE'' then PLANS_FREE
      else if toUpperCase pid = ''PRO'' then PLANS_PRO
      else PLANS_FREE)"

text \<open>
  The user object the sweep builds from the first row of a user, and the one the
  exported \<^verbatim>\<open>isEligibleForCheck\<close> receives; a field may be missing.
\<close>

record user =
  u_id :: nat
  u_telegram_id :: nat
  u_plan :: "string option"
  u_check_interval :: "string option"
  u_max_products :: "nat option"

definition getUserPlan :: "user \<Rightarrow> planConfig" where
  "getUserPlan u = (if orElse (u_plan u) [] = [] then PLANS_FREE else getPlanById (orElse (u_plan u) []))"

subsection \<open>cronJobs.js: eligibility\<close>

text \<open>
  A reading of \<^verbatim>\<open>new Date()\<close>: the time in milliseconds and \<^verbatim>\<open>getDay()\<close> of the local
  time zone (0 is Sunday).
\<close>

record clock =
  nowMs :: int
  dayOfWeek :: nat

datatype eligibilityReason =
    CheckedLessThanOneHourAgo
  | HourlyCheckEligible
  | AlreadyCheckedToday
  | DailyCheckEligible
  | WaitingForSunday nat
  | AlreadyCheckedThisWeek
  | WeeklyCheckEligible

record eligibility =
  eligible :: bool
  eligibilityReason :: eligibilityReason

definition isEligibleForCheck :: "clock \<Rightarrow> user \<Rightarrow> product \<Rightarrow> eligibility" where
  "isEligibleForCheck now u p =
     (let plan = getUserPlan u;
          interval = orElse (u_check_interval u) (checkInterval plan);
          lastChecked = last_checked_at p
      in
      if toUpperCase interval = ''HOURLY'' then
        (case lastChecked of
           Some t \<Rightarrow>
             if real_of_int (nowMs now - t) / (1000 * 60 * 60) < 1
             then \<lparr>eligible = False, eligibilityReason = CheckedLessThanOneHourAgo\<rparr>
             else \<lparr>eligible = True, eligibilityReason = HourlyCheckEligible\<rparr>
         | None \<Rightarrow> \<lparr>eligible = True, eligibilityReason = HourlyCheckEligible\<rparr>)
      else if toUpperCase interval = ''DAILY'' then
        (case lastChecked of
           Some t \<Rightarrow>
             if real_of_int (nowMs now - t) / (1000 * 60 * 60) < 20
             then \<lparr>eligible = False, eligibilityReason = AlreadyCheckedToday\<rparr>
             else \<lparr>eligible = True, eligibilityReason = DailyCheckEligible\<rparr>
         | None \<Rightarrow> \<lparr>eligible = True, eligibilityReason = DailyCheckEligible\<rparr>)
      else if dayOfWeek now \<noteq> 0
      then \<lparr>eligible = False, eligibilityReason = WaitingForSunday (dayOfWeek now)\<rparr>
      else
        (case lastChecked of
           Some t \<Rightarrow>
             if real_of_int (nowMs now - t) / (1000 * 60 * 60 * 24) < 6
             then \<lparr>eligible = False, eligibilityReason = AlreadyCheckedThisWeek\<rparr>
             else \<lparr>eligible = True, eligibilityReason = WeeklyCheckEligible\<rparr>
         | None \<Rightarrow> \<lparr>eligible = True, eligibilityReason = WeeklyCheckEligible\<rparr>))"

subsection \<open>cronJobs.js: the retry wrapper\<close>

text \<open>An awaited call of a collaborator either returns a value or throws.\<close>

datatype 'a outcome = Returns 'a | Throws

text \<open>What \<^verbatim>\<open>scrapeAmazonProduct\<close> resolves to; \<open>None\<close> further out is a \<^verbatim>\<open>null\<close> result.\<close>

record scraped =
  scraped_title :: string
  price :: "real option"

text \<open>\<^verbatim>\<open>result && result.price\<close>.\<close>

fun usable :: "scraped option outcome \<Rightarrow> bool" where
  "usable (Returns (Some r)) = truthy (price r)"
| "usable (Returns None) = False"
| "usable Throws = False"

record retryResult =
  calls :: nat
  scrapedData :: "scraped option"

text \<open>
  The loop \<^verbatim>\<open>for (let attempt = 0; attempt <= retries; attempt++)\<close> of
  \<^verbatim>\<open>scrapeWithRetry\<close>. The first argument gives the outcome of the call made in each
  attempt. The result carries, next to the returned value, the number of calls of
  \<^verbatim>\<open>scrapeAmazonProduct\<close> that were made. The waiting before a retry has no effect on
  the result and is left out.
\<close>

function scrapeAttempts :: "(nat \<Rightarrow> scraped option outcome) \<Rightarrow> nat \<Rightarrow> nat \<Rightarrow> retryResult" where
  "scrapeAttempts scrape retries attempt =
     (if attempt \<le> retries then
        (case scrape attempt of
           Returns (Some r) \<Rightarrow>
             if truthy (price r) then \<lparr>calls = attempt + 1, scrapedData = Some r\<rparr>
             else scrapeAttempts scrape retries (attempt + 1)
         | Returns None \<Rightarrow> scrapeAttempts scrape retries (attempt + 1)
         | Throws \<Rightarrow> scrapeAttempts scrape retries (attempt + 1))
      else \<lparr>calls = attempt, scrapedData = None\<rparr>)"
  by pat_completeness auto
termination
  by (relation "measure (\<lambda>(scrape, retries, attempt). retries + 1 - attempt)") auto

declare scrapeAttempts.simps [simp del]

definition scrapeWithRetry :: "(nat \<Rightarrow> scraped option outcome) \<Rightarrow> nat \<Rightarrow> retryResult" where
  "scrapeWithRetry scrape retries = scrapeAttempts scrape retries 0"

subsection \<open>cronJobs.js: the sweep\<close>

record runStats =
  lastRun :: "int option"
  productsChecked :: nat
  productsSkipped :: nat
  priceDrops :: nat
  notificationsSent :: nat
  errors :: nat

text \<open>
  The tables the sweep writes (\<^verbatim>\<open>db/queries\<close>): \<^verbatim>\<open>updateProductPrice\<close> sets
  \<^verbatim>\<open>current_price\<close> and \<^verbatim>\<open>title\<close> of a row, \<^verbatim>\<open>addPriceHistory\<close> inserts into
  \<^verbatim>\<open>price_history\<close>, \<^verbatim>\<open>updateAlertStatus\<close> sets \<^verbatim>\<open>last_alert_price\<close>. The timestamp
  columns they set to \<^verbatim>\<open>CURRENT_TIMESTAMP\<close> are not modelled.
\<close>

record db =
  currentPrices :: "nat \<Rightarrow> real option"
  titles :: "nat \<Rightarrow> string option"
  priceHistory :: "(nat \<times> real option) list"
  lastAlertPrices :: "nat \<Rightarrow> real option"

text \<open>
  The state a sweep changes: the module variable \<^verbatim>\<open>runStats\<close>, the database, and the
  messages delivered through \<^verbatim>\<open>sendMessage\<close> (chat id, product id, reason).
\<close>

record state =
  stats :: runStats
  database :: db
  delivered :: "(nat \<times> nat \<times> notifyReason) list"

text \<open>
  The collaborators of one sweep. Items are processed one at a time and each product row
  is visited once, so the outcomes of the calls made for a row are indexed by its
  \<^verbatim>\<open>id\<close>: the clock read when the row is examined, the outcome of each attempt of
  \<^verbatim>\<open>scrapeAmazonProduct(product.amazon_url)\<close>, and whether each write and the
  \<^verbatim>\<open>sendMessage(product.telegram_id, message)\<close> made for the row returns or throws.
  What is thrown is an \<^verbatim>\<open>Error\<close> object, so reading its \<^verbatim>\<open>message\<close> in a handler
  does not throw again.
\<close>

record world =
  getAllActiveTrackedProducts :: "product list outcome"
  getActiveTrackedProductsByInterval :: "string \<Rightarrow> product list outcome"
  clockAt :: "nat \<Rightarrow> clock"
  scrapeAmazonProduct :: "nat \<Rightarrow> nat \<Rightarrow> scraped option outcome"
  updateProductPrice :: "nat \<Rightarrow> unit outcome"
  addPriceHistory :: "nat \<Rightarrow> unit outcome"
  sendMessage :: "nat \<Rightarrow> unit outcome"
  updateAlertStatus :: "nat \<Rightarrow> unit outcome"

definition incChecked :: "state \<Rightarrow> state" where
  "incChecked s = s\<lparr>stats := (stats s)\<lparr>productsChecked := productsChecked (stats s) + 1\<rparr>\<rparr>"

definition incSkipped :: "state \<Rightarrow> state" where
  "incSkipped s = s\<lparr>stats := (stats s)\<lparr>productsSkipped := productsSkipped (stats s) + 1\<rparr>\<rparr>"

definition incPriceDrops :: "state \<Rightarrow> state" where
  "incPriceDrops s = s\<lparr>stats := (stats s)\<lparr>priceDrops := priceDrops (stats s) + 1\<rparr>\<rparr>"

definition incNotificationsSent :: "state \<Rightarrow> state" where
  "incNotificationsSent s =
     s\<lparr>stats := (stats s)\<lparr>notificationsSent := notificationsSent (stats s) + 1\<rparr>\<rparr>"

definition incErrors :: "state \<Rightarrow> state" where
  "incErrors s = s\<lparr>stats := (stats s)\<lparr>errors := errors (stats s) + 1\<rparr>\<rparr>"

definition writePrice :: "nat \<Rightarrow> real option \<Rightarrow> string \<Rightarrow> state \<Rightarrow> state" where
  "writePrice i newPrice t s =
     s\<lparr>database := (database s)\<lparr>currentPrices := (currentPrices (database s))(i := newPrice),
                                 titles := (titles (database s))(i := Some t)\<rparr>\<rparr>"

definition writeHistory :: "nat \<Rightarrow> real option \<Rightarrow> state \<Rightarrow> state" where
  "writeHistory i newPrice s =
     s\<lparr>database := (database s)\<lparr>priceHistory := priceHistory (database s) @ [(i, newPrice)]\<rparr>\<rparr>"

definition writeAlertStatus :: "nat \<Rightarrow> real option \<Rightarrow> state \<Rightarrow> state" where
  "writeAlertStatus i newPrice s =
     s\<lparr>database := (database s)\<lparr>lastAlertPrices := (lastAlertPrices (database s))(i := newPrice)\<rparr>\<rparr>"

text \<open>
  Lines 254-264, the inner \<^verbatim>\<open>try\<close>: send the notification, record the alert price, count
  the notification. A throw of either call is caught by the inner handler, which only logs.
\<close>

definition dispatchNotification ::
    "world \<Rightarrow> product \<Rightarrow> real option \<Rightarrow> notifyReason \<Rightarrow> state \<Rightarrow> state" where
  "dispatchNotification w p newPrice r s =
     (case sendMessage w (product_id p) of
        Throws \<Rightarrow> s
      | Returns _ \<Rightarrow>
          let s1 = s\<lparr>delivered := delivered s @ [(telegram_id p, product_id p, r)]\<rparr> in
          (case updateAlertStatus w (product_id p) of
             Throws \<Rightarrow> s1
           | Returns _ \<Rightarrow> incNotificationsSent (writeAlertStatus (product_id p) newPrice s1)))"

text \<open>
  How the body of the outer \<^verbatim>\<open>try\<close> (lines 217-266) ends: normally, or by a throw that
  reaches the outer handler. Either way the state reached so far is kept: nothing is
  rolled back.
\<close>

datatype completion = Completed state | Thrown state

text \<open>
  The pacing delay before the scrape (taken when \<^verbatim>\<open>runStats.productsChecked > 0\<close>)
  changes no state and is left out.
\<close>

definition tryBody :: "world \<Rightarrow> product \<Rightarrow> state \<Rightarrow> completion" where
  "tryBody w p s =
     (case scrapedData (scrapeWithRetry (scrapeAmazonProduct w (product_id p)) 1) of
        None \<Rightarrow> Completed (incErrors s)
      | Some d \<Rightarrow>
          if \<not> truthy (price d) then Completed (incErrors s)
          else
            let newPrice = price d; oldPrice = current_price p in
            (case updateProductPrice w (product_id p) of
               Throws \<Rightarrow> Thrown s
             | Returns _ \<Rightarrow>
                 let s1 = writePrice (product_id p) newPrice (scraped_title d) s in
                 (case addPriceHistory w (product_id p) of
                    Throws \<Rightarrow> Thrown s1
                  | Returns _ \<Rightarrow>
                      let s2 = incChecked (writeHistory (product_id p) newPrice s1);
                          shouldNotify = shouldSendNotification p oldPrice newPrice
                      in
                      if notify shouldNotify
                      then Completed (dispatchNotification w p newPrice (notifyReason shouldNotify)
                                        (incPriceDrops s2))
                      else Completed s2)))"

text \<open>One iteration of the inner \<^verbatim>\<open>for\<close> loop (lines 203-273).\<close>

definition processProduct :: "world \<Rightarrow> user \<Rightarrow> product \<Rightarrow> state \<Rightarrow> state" where
  "processProduct w u p s =
     (if \<not> eligible (isEligibleForCheck (clockAt w (product_id p)) u p) then incSkipped s
      else
        (case tryBody w p s of
           Completed s' \<Rightarrow> s'
         | Thrown s' \<Rightarrow> incErrors s'))"

fun processProducts :: "world \<Rightarrow> user \<Rightarrow> product list \<Rightarrow> state \<Rightarrow> state" where
  "processProducts w u [] s = s"
| "processProducts w u (p # ps) s = processProducts w u ps (processProduct w u p s)"

text \<open>
  Lines 177-192: the rows are grouped under their \<^verbatim>\<open>user_id\<close>; the user object is built
  from the first row of the group.
\<close>

definition mkUser :: "product \<Rightarrow> user" where
  "mkUser p =
     \<lparr>u_id = user_id p, u_telegram_id = telegram_id p,
      u_plan = Some (orElse (plan p) ''FREE''),
      u_check_interval = Some (orElse (check_interval p) ''WEEKLY''),
      u_max_products = Some (case max_products p of None \<Rightarrow> 1 | Some k \<Rightarrow> if k = 0 then 1 else k)\<rparr>"

fun addProduct :: "product \<Rightarrow> (nat \<times> user \<times> product list) list \<Rightarrow> (nat \<times> user \<times> product list) list" where
  "addProduct p [] = [(user_id p, mkUser p, [p])]"
| "addProduct p ((k, u, ps) # g) =
     (if k = user_id p then (k, u, ps @ [p]) # g else (k, u, ps) # addProduct p g)"

definition productsByUser :: "product list \<Rightarrow> (nat \<times> user \<times> product list) list" where
  "productsByUser products = foldl (\<lambda>g p. addProduct p g) [] products"

text \<open>
  \<^verbatim>\<open>Object.keys\<close> lists the keys that are array indices (integers below \<open>2 ^ 32 - 1\<close>)
  in ascending order, whatever the insertion order, and after them the other keys in
  insertion order; the user ids are the integer primary keys of \<^verbatim>\<open>users\<close>.
\<close>

definition objectKeys :: "(nat \<times> user \<times> product list) list \<Rightarrow> (nat \<times> user \<times> product list) list" where
  "objectKeys g =
     sort_key fst (filter (\<lambda>entry. fst entry < 4294967295) g)
     @ filter (\<lambda>entry. \<not> fst entry < 4294967295) g"

fun processUsers :: "world \<Rightarrow> (nat \<times> user \<times> product list) list \<Rightarrow> state \<Rightarrow> state" where
  "processUsers w [] s = s"
| "processUsers w ((k, u, ps) # g) s = processUsers w g (processProducts w u ps s)"

definition resetStats :: "int \<Rightarrow> runStats" where
  "resetStats startedAt =
     \<lparr>lastRun = Some startedAt, productsChecked = 0, productsSkipped = 0, priceDrops = 0,
      notificationsSent = 0, errors = 0\<rparr>"

text \<open>
  \<^verbatim>\<open>runPriceCheckByInterval(interval)\<close>: the statistics are reset, the candidates are
  loaded (a throw of the query ends the run in the outermost handler), and every
  candidate is processed.
\<close>

definition loadProducts :: "world \<Rightarrow> string option \<Rightarrow> product list outcome" where
  "loadProducts w interval =
     (if orElse interval [] = [] then getAllActiveTrackedProducts w
      else getActiveTrackedProductsByInterval w (orElse interval []))"

definition runPriceCheckByInterval :: "world \<Rightarrow> int \<Rightarrow> string option \<Rightarrow> state \<Rightarrow> state" where
  "runPriceCheckByInterval w startedAt interval s =
     (let s0 = s\<lparr>stats := resetStats startedAt\<rparr> in
      case loadProducts w interval of
        Throws \<Rightarrow> s0
      | Returns products \<Rightarrow>
          if products = [] then s0
          else processUsers w (objectKeys (productsByUser products)) s0)"

text \<open>The candidates of a sweep in the order in which they are processed, each with its user.\<close>

definition candidates :: "product list \<Rightarrow> (user \<times> product) list" where
  "candidates products =
     concat (map (\<lambda>(k, u, ps). map (\<lambda>p. (u, p)) ps) (objectKeys (productsByUser products)))"

fun processAll :: "world \<Rightarrow> (user \<times> product) list \<Rightarrow> state \<Rightarrow> state" where
  "processAll w [] s = s"
| "processAll w ((u, p) # xs) s = processAll w xs (processProduct w u p s)"

text \<open>The three counters of which every candidate increments one.\<close>

definition accounted :: "state \<Rightarrow> nat" where
  "accounted s = productsChecked (stats s) + productsSkipped (stats s) + errors (stats s)"

text \<open>Concrete rows used in the worked examples.\<close>

definition row :: "nat \<Rightarrow> nat \<Rightarrow> string \<Rightarrow> real option \<Rightarrow> real option \<Rightarrow> real option \<Rightarrow> product" where
  "row i u iv cur tgt la =
     \<lparr>product_id = i, user_id = u, telegram_id = 1000 + u, plan = Some ''PRO'',
      check_interval = Some iv, max_products = Some 10, amazon_url = ''https://amazon.in/dp/X'',
      title = Some ''Item'', current_price = cur, target_price = tgt,
      last_alert_price = la, last_checked_at = None\<rparr>"

text \<open>A fetch that throws on every attempt but the second.\<close>

definition flaky :: "nat \<Rightarrow> scraped option outcome" where
  "flaky k = (if k = 1 then Returns (Some \<lparr>scraped_title = ''Item'', price = Some 480\<rparr>) else Throws)"

text \<open>Concrete states and collaborators used in the worked examples.\<close>

definition emptyState :: state where
  "emptyState =
     \<lparr>stats = \<lparr>lastRun = None, productsChecked = 0, productsSkipped = 0, priceDrops = 0,
               notificationsSent = 0, errors = 0\<rparr>,
      database = \<lparr>currentPrices = (\<lambda>i. None), titles = (\<lambda>i. None), priceHistory = [],
                  lastAlertPrices = (\<lambda>i. None)\<rparr>,
      delivered = []\<rparr>"

definition sweepWorld ::
    "product list \<Rightarrow> (nat \<Rightarrow> nat \<Rightarrow> scraped option outcome) \<Rightarrow> (nat \<Rightarrow> unit outcome) \<Rightarrow> world" where
  "sweepWorld rows scrape send =
     \<lparr>getAllActiveTrackedProducts = Returns rows,
      getActiveTrackedProductsByInterval = (\<lambda>iv. Returns rows),
      clockAt = (\<lambda>i. \<lparr>nowMs = 1000000000, dayOfWeek = 3\<rparr>),
      scrapeAmazonProduct = scrape,
      updateProductPrice = (\<lambda>i. Returns ()),
      addPriceHistory = (\<lambda>i. Returns ()),
      sendMessage = send,
      updateAlertStatus = (\<lambda>i. Returns ())\<rparr>"

definition quote90 :: "scraped option outcome" where
  "quote90 = Returns (Some \<lparr>scraped_title = ''Item'', price = Some 90\<rparr>)"

definition threeRows :: "product list" where
  "threeRows = [row 1 1 ''DAILY'' (Some 100) None None,
                row 2 2 ''DAILY'' (Some 200) None None,
                row 3 3 ''DAILY'' (Some 300) None None]"

definition secondFetchThrows :: world where
  "secondFetchThrows =
     sweepWorld threeRows (\<lambda>i k. if i = 2 then Throws else quote90) (\<lambda>i. Returns ())"

definition notifierUp :: world where
  "notifierUp =
     sweepWorld [row 1 1 ''DAILY'' (Some 100) None None] (\<lambda>i k. quote90) (\<lambda>i. Returns ())"

definition notifierDown :: world where
  "notifierDown =
     sweepWorld [row 1 1 ''DAILY'' (Some 100) None None] (\<lambda>i k. quote90) (\<lambda>i. Throws)"

section \<open>Rounding to the nearest double\<close>

lemma pow2_powr: "pow2 e = 2 powr (of_int e)"
  by (simp add: pow2_def powr_int)

lemma pow2_pos [simp]: "0 < pow2 e"
  by (simp add: pow2_powr)

lemma pow2_nonzero [simp]: "pow2 e \<noteq> 0"
  using pow2_pos [of e] by linarith

lemma pow2_ge0 [simp]: "0 \<le> pow2 e"
  using pow2_pos [of e] by linarith

lemma pow2_add: "pow2 (a + b) = pow2 a * pow2 b"
  by (simp add: pow2_powr powr_add)

lemma pow2_le_iff [simp]: "pow2 a \<le> pow2 b \<longleftrightarrow> a \<le> b"
  by (simp add: pow2_powr)

lemma pow2_less_iff [simp]: "pow2 a < pow2 b \<longleftrightarrow> a < b"
  by (simp add: pow2_powr)

lemma pow2_nonneg_int: "0 \<le> e \<Longrightarrow> pow2 e = of_int (2 ^ nat e)"
  by (simp add: pow2_def)

lemma binade_eq: "pow2 k \<le> \<bar>x\<bar> \<Longrightarrow> \<bar>x\<bar> < pow2 (k + 1) \<Longrightarrow> binade x = k"
proof -
  assume a: "pow2 k \<le> \<bar>x\<bar>" and b: "\<bar>x\<bar> < pow2 (k + 1)"
  from a have "0 < \<bar>x\<bar>" using pow2_pos [of k] by linarith
  then show ?thesis
    unfolding binade_def using a b
    by (subst floor_log_eq_powr_iff) (simp_all add: pow2_powr)
qed

lemma binade_bounds:
  assumes "x \<noteq> 0"
  shows "pow2 (binade x) \<le> \<bar>x\<bar>" and "\<bar>x\<bar> < pow2 (binade x + 1)"
proof -
  from assms have "0 < \<bar>x\<bar>" by simp
  then have "2 powr (of_int \<lfloor>log 2 \<bar>x\<bar>\<rfloor>) \<le> \<bar>x\<bar> \<and> \<bar>x\<bar> < 2 powr (of_int (\<lfloor>log 2 \<bar>x\<bar>\<rfloor> + 1))"
    using floor_log_eq_powr_iff [of "\<bar>x\<bar>" 2 "\<lfloor>log 2 \<bar>x\<bar>\<rfloor>"] by simp
  then show "pow2 (binade x) \<le> \<bar>x\<bar>" and "\<bar>x\<bar> < pow2 (binade x + 1)"
    by (simp_all add: binade_def pow2_powr)
qed

lemma binade_mono:
  assumes "x \<noteq> 0" and "\<bar>x\<bar> \<le> \<bar>y\<bar>"
  shows "binade x \<le> binade y"
proof -
  from assms have y: "y \<noteq> 0" by auto
  have "pow2 (binade x) \<le> \<bar>x\<bar>" using assms(1) by (rule binade_bounds)
  also have "\<dots> \<le> \<bar>y\<bar>" by fact
  also have "\<dots> < pow2 (binade y + 1)" using y by (rule binade_bounds)
  finally show ?thesis by simp
qed

lemma roundEven_int [simp]: "roundEven (of_int n) = n"
  by (simp add: roundEven_def)

lemma roundEven_le: "y \<le> of_int N \<Longrightarrow> roundEven y \<le> N"
proof -
  assume a: "y \<le> of_int N"
  show ?thesis
  proof (cases "y = of_int N")
    case True
    then show ?thesis by simp
  next
    case False
    with a have "y < of_int N" by simp
    then have "\<lfloor>y\<rfloor> < N" by (simp add: floor_less_iff)
    then show ?thesis by (auto simp: roundEven_def)
  qed
qed

lemma roundEven_ge: "of_int N \<le> y \<Longrightarrow> N \<le> roundEven y"
proof -
  assume "of_int N \<le> y"
  then have "N \<le> \<lfloor>y\<rfloor>" by (simp add: le_floor_iff)
  then show ?thesis by (auto simp: roundEven_def)
qed

lemma ulpExp_mono: "x \<noteq> 0 \<Longrightarrow> \<bar>x\<bar> \<le> \<bar>y\<bar> \<Longrightarrow> ulpExp x \<le> ulpExp y"
  using binade_mono [of x y] by (simp add: ulpExp_def)

text \<open>A representable number lies on the grid of its own binade.\<close>

lemma on_own_grid:
  assumes "\<bar>m\<bar> < 2 ^ 53" and "- 1074 \<le> e" and "m \<noteq> 0"
  shows "\<exists>N. of_int m * pow2 e = of_int N * pow2 (ulpExp (of_int m * pow2 e))"
proof -
  let ?x = "of_int m * pow2 e :: real"
  have nz: "?x \<noteq> 0" using assms(3) pow2_pos [of e] by simp
  have "\<bar>?x\<bar> = of_int \<bar>m\<bar> * pow2 e" by (simp add: abs_mult)
  also have "\<dots> < of_int (2 ^ 53) * pow2 e"
    using assms(1) pow2_pos [of e] by (intro mult_strict_right_mono) (simp_all del: of_int_power)
  also have "\<dots> = pow2 53 * pow2 e" by (simp add: pow2_def)
  also have "\<dots> = pow2 (53 + e)" by (simp add: pow2_add)
  finally have "\<bar>?x\<bar> < pow2 (53 + e)" .
  moreover have "pow2 (binade ?x) \<le> \<bar>?x\<bar>" using nz by (rule binade_bounds)
  ultimately have "pow2 (binade ?x) < pow2 (53 + e)" by linarith
  then have "binade ?x - 52 \<le> e" by simp
  with assms(2) have u: "ulpExp ?x \<le> e" by (simp add: ulpExp_def)
  define d where "d = e - ulpExp ?x"
  have d: "0 \<le> d" "e = d + ulpExp ?x" using u by (simp_all add: d_def)
  have "?x = of_int m * (pow2 d * pow2 (ulpExp ?x))"
    using d(2) pow2_add [of d "ulpExp ?x"] by simp
  also have "\<dots> = of_int (m * 2 ^ nat d) * pow2 (ulpExp ?x)"
    using d(1) by (simp add: pow2_nonneg_int)
  finally show ?thesis by blast
qed

lemma roundDouble_exact:
  assumes "\<bar>m\<bar> < 2 ^ 53" and "- 1074 \<le> e"
  shows "roundDouble (of_int m * pow2 e) = of_int m * pow2 e"
proof (cases "m = 0")
  case True
  then show ?thesis by (simp add: roundDouble_def)
next
  case False
  let ?x = "of_int m * pow2 e :: real"
  from on_own_grid [OF assms False] obtain N
    where N: "?x = of_int N * pow2 (ulpExp ?x)" by blast
  have nz: "?x \<noteq> 0" using False pow2_pos [of e] by simp
  have "?x / pow2 (ulpExp ?x) = of_int N"
    using N pow2_pos [of "ulpExp ?x"] by (metis nonzero_eq_divide_eq less_irrefl)
  then have "roundDouble ?x = of_int N * pow2 (ulpExp ?x)"
    using nz by (simp add: roundDouble_def)
  with N show ?thesis by simp
qed

lemma roundDouble_nonneg: "0 \<le> x \<Longrightarrow> 0 \<le> roundDouble x"
proof -
  assume "0 \<le> x"
  then have "of_int 0 \<le> x / pow2 (ulpExp x)" by simp
  then have "0 \<le> roundEven (x / pow2 (ulpExp x))" by (rule roundEven_ge)
  then show ?thesis by (simp add: roundDouble_def)
qed

lemma roundDouble_nonpos: "x \<le> 0 \<Longrightarrow> roundDouble x \<le> 0"
proof -
  assume "x \<le> 0"
  then have "x / pow2 (ulpExp x) \<le> of_int 0" by (simp add: divide_nonpos_pos)
  then have "roundEven (x / pow2 (ulpExp x)) \<le> 0" by (rule roundEven_le)
  then have "of_int (roundEven (x / pow2 (ulpExp x))) * pow2 (ulpExp x) \<le> 0"
    by (intro mult_nonpos_nonneg) simp_all
  then show ?thesis by (simp add: roundDouble_def)
qed

lemma roundDouble_upper:
  assumes "0 \<le> x" and "x \<le> of_int m * pow2 e" and "\<bar>m\<bar> < 2 ^ 53" and "- 1074 \<le> e"
  shows "roundDouble x \<le> of_int m * pow2 e"
proof (cases "x = 0")
  case True
  with assms(1,2) show ?thesis by (simp add: roundDouble_def)
next
  case False
  let ?c = "of_int m * pow2 e :: real"
  from False assms(1,2) have xp: "0 < x" and cp: "0 < ?c" by simp_all
  have m: "m \<noteq> 0"
  proof
    assume "m = 0"
    with cp show False by simp
  qed
  from on_own_grid [OF assms(3,4) m] obtain N
    where N: "?c = of_int N * pow2 (ulpExp ?c)" by blast
  have "ulpExp x \<le> ulpExp ?c" using False assms(2) xp cp by (intro ulpExp_mono) simp_all
  define d where "d = ulpExp ?c - ulpExp x"
  have d: "0 \<le> d" "ulpExp ?c = d + ulpExp x"
    using \<open>ulpExp x \<le> ulpExp ?c\<close> by (simp_all add: d_def)
  have c: "?c = of_int (N * 2 ^ nat d) * pow2 (ulpExp x)"
    using N d pow2_add [of d "ulpExp x"] by (simp add: pow2_nonneg_int)
  have "x / pow2 (ulpExp x) \<le> ?c / pow2 (ulpExp x)"
    using assms(2) by (intro divide_right_mono) simp_all
  also have "\<dots> = of_int (N * 2 ^ nat d)" by (subst c) simp
  finally have "roundEven (x / pow2 (ulpExp x)) \<le> N * 2 ^ nat d" by (rule roundEven_le)
  then have "of_int (roundEven (x / pow2 (ulpExp x))) * pow2 (ulpExp x)
             \<le> of_int (N * 2 ^ nat d) * pow2 (ulpExp x)"
    by (intro mult_right_mono) (simp_all del: of_int_mult of_int_power)
  with c False show ?thesis by (simp add: roundDouble_def)
qed

lemma roundDouble_lower:
  assumes "0 < of_int m * pow2 e" and "of_int m * pow2 e \<le> x" and "\<bar>m\<bar> < 2 ^ 53" and "- 1074 \<le> e"
  shows "of_int m * pow2 e \<le> roundDouble x"
proof -
  let ?c = "of_int m * pow2 e :: real"
  from assms(1,2) have xp: "0 < x" by linarith
  then have xnz: "x \<noteq> 0" by simp
  have m: "m \<noteq> 0"
  proof
    assume "m = 0"
    with assms(1) show False by simp
  qed
  have cnz: "?c \<noteq> 0" using m by simp
  have le: "binade ?c \<le> binade x" using cnz assms(1,2) xp by (intro binade_mono) simp_all
  show ?thesis
  proof (cases "binade ?c = binade x")
    case True
    then have u: "ulpExp ?c = ulpExp x" by (simp add: ulpExp_def)
    from on_own_grid [OF assms(3,4) m] obtain N
      where N: "?c = of_int N * pow2 (ulpExp x)" unfolding u by blast
    have "of_int N = ?c / pow2 (ulpExp x)" by (subst N) simp
    also have "\<dots> \<le> x / pow2 (ulpExp x)" using assms(2) by (intro divide_right_mono) simp_all
    finally have "N \<le> roundEven (x / pow2 (ulpExp x))" by (rule roundEven_ge)
    then have "of_int N * pow2 (ulpExp x) \<le> of_int (roundEven (x / pow2 (ulpExp x))) * pow2 (ulpExp x)"
      by (intro mult_right_mono) simp_all
    with N xnz show ?thesis by (simp add: roundDouble_def)
  next
    case False
    with le have lt: "binade ?c + 1 \<le> binade x" by simp
    from m have "1 \<le> \<bar>m\<bar>" by simp
    then have "(1::real) \<le> of_int \<bar>m\<bar>" by linarith
    then have "1 * pow2 e \<le> of_int \<bar>m\<bar> * pow2 e"
      by (intro mult_right_mono) simp_all
    then have "pow2 e \<le> of_int \<bar>m\<bar> * pow2 e" by simp
    also have "\<dots> = \<bar>?c\<bar>" by (simp add: abs_mult)
    also have "\<dots> < pow2 (binade ?c + 1)" using cnz by (rule binade_bounds)
    finally have "e \<le> binade ?c" by simp
    with assms(4) lt have b: "- 1074 \<le> binade x" by simp
    then have ux: "ulpExp x \<le> binade x" by (simp add: ulpExp_def)
    define d where "d = binade x - ulpExp x"
    have d: "0 \<le> d" "binade x = d + ulpExp x" using ux by (simp_all add: d_def)
    have P: "pow2 (binade x) = of_int (2 ^ nat d) * pow2 (ulpExp x)"
      using d pow2_add [of d "ulpExp x"] by (simp add: pow2_nonneg_int)
    have "pow2 (binade x) \<le> \<bar>x\<bar>" using xnz by (rule binade_bounds)
    then have "pow2 (binade x) \<le> x" using xp by simp
    then have "pow2 (binade x) / pow2 (ulpExp x) \<le> x / pow2 (ulpExp x)"
      by (intro divide_right_mono) simp_all
    moreover have "pow2 (binade x) / pow2 (ulpExp x) = of_int (2 ^ nat d)" by (subst P) simp
    ultimately have "of_int (2 ^ nat d) \<le> x / pow2 (ulpExp x)" by simp
    then have "2 ^ nat d \<le> roundEven (x / pow2 (ulpExp x))" by (rule roundEven_ge)
    then have "of_int (2 ^ nat d) * pow2 (ulpExp x)
               \<le> of_int (roundEven (x / pow2 (ulpExp x))) * pow2 (ulpExp x)"
      by (intro mult_right_mono) (simp_all del: of_int_power)
    with P xnz have "pow2 (binade x) \<le> roundDouble x" by (simp add: roundDouble_def)
    moreover have "?c \<le> \<bar>?c\<bar>" by simp
    moreover have "\<bar>?c\<bar> < pow2 (binade ?c + 1)" using cnz by (rule binade_bounds)
    moreover have "pow2 (binade ?c + 1) \<le> pow2 (binade x)" using lt by simp
    ultimately show ?thesis by linarith
  qed
qed


lemma pow2_neg_nat: "pow2 (- int n) = 1 / 2 ^ n"
  by (simp add: pow2_powr powr_minus_divide powr_realpow)

lemma roundDouble_zero [simp]: "roundDouble 0 = 0"
  by (simp add: roundDouble_def)

lemma roundDouble_int: "\<bar>m\<bar> < 2 ^ 53 \<Longrightarrow> roundDouble (of_int m) = of_int m"
  using roundDouble_exact [of m 0] by (simp add: pow2_def)

lemma roundDouble_dyadic: "\<bar>m\<bar> < 2 ^ 53 \<Longrightarrow> n \<le> 1074 \<Longrightarrow> roundDouble (of_int m / 2 ^ n) = of_int m / 2 ^ n"
  using roundDouble_exact [of m "- int n"] by (simp add: pow2_neg_nat)

lemma roundDouble_upper_dyadic:
  "0 \<le> x \<Longrightarrow> x \<le> of_int m / 2 ^ n \<Longrightarrow> \<bar>m\<bar> < 2 ^ 53 \<Longrightarrow> n \<le> 1074 \<Longrightarrow> roundDouble x \<le> of_int m / 2 ^ n"
  using roundDouble_upper [of x m "- int n"] by (simp add: pow2_neg_nat)

lemma roundDouble_lower_dyadic:
  "0 < of_int m / (2 ^ n :: real) \<Longrightarrow> of_int m / 2 ^ n \<le> x \<Longrightarrow> \<bar>m\<bar> < 2 ^ 53 \<Longrightarrow> n \<le> 1074
     \<Longrightarrow> of_int m / 2 ^ n \<le> roundDouble x"
  using roundDouble_lower [of m "- int n" x] by (simp add: pow2_neg_nat)

lemma roundDouble_normal:
  assumes "pow2 k \<le> \<bar>x\<bar>" and "\<bar>x\<bar> < pow2 (k + 1)" and "- 1022 \<le> k"
  shows "roundDouble x = of_int (roundEven (x / pow2 (k - 52))) * pow2 (k - 52)"
proof -
  have "x \<noteq> 0"
  proof
    assume "x = 0"
    with assms(1) have "pow2 k \<le> 0" by simp
    with pow2_pos [of k] show False by linarith
  qed
  moreover from assms(1,2) have "binade x = k" by (rule binade_eq)
  ultimately show ?thesis using assms(3) by (simp add: roundDouble_def ulpExp_def)
qed

text \<open>The doubles that the literals \<^verbatim>\<open>0.01\<close>, \<^verbatim>\<open>0.02\<close> and \<^verbatim>\<open>99.99\<close> denote.\<close>

lemma jsLit_001: "jsLit (1 / 100) = 5764607523034235 / 2 ^ 59"
  unfolding jsLit_def
  using roundDouble_normal [of "- 7" "1 / 100"] by (simp add: pow2_def roundEven_def)

lemma jsLit_002: "jsLit (1 / 50) = 5764607523034235 / 2 ^ 58"
  unfolding jsLit_def
  using roundDouble_normal [of "- 6" "1 / 50"] by (simp add: pow2_def roundEven_def)

lemma jsLit_9999: "jsLit (9999 / 100) = 7036170730324623 / 2 ^ 46"
  unfolding jsLit_def
  using roundDouble_normal [of 6 "9999 / 100"] by (simp add: pow2_def roundEven_def)

lemma jsLit_001_pos: "0 < jsLit (1 / 100)"
  by (simp add: jsLit_001)

lemma jsSub_pos: "0 < jsSub a b \<Longrightarrow> b < a"
  using roundDouble_nonpos [of "a - b"] by (auto simp: jsSub_def not_less [symmetric])

lemma jsSub_self: "jsSub a a = 0"
  by (simp add: jsSub_def)

text \<open>The percentages of the worked examples, as the code computes them.\<close>

lemma pct_100_995: "jsMul (jsDiv (jsSub 100 (199 / 2)) 100) 100 = 1 / 2"
proof -
  have a: "jsSub 100 (199 / 2) = 1 / 2"
    using roundDouble_dyadic [of 1 1] by (simp add: jsSub_def)
  have b: "jsDiv (1 / 2) 100 = 5764607523034235 / 2 ^ 60"
    unfolding jsDiv_def
    using roundDouble_normal [of "- 8" "1 / 2 / 100"] by (simp add: pow2_def roundEven_def)
  have c: "jsMul (5764607523034235 / 2 ^ 60) 100 = 1 / 2"
    unfolding jsMul_def
    using roundDouble_normal [of "- 1" "5764607523034235 / 2 ^ 60 * 100"]
    by (simp add: pow2_def roundEven_def)
  show ?thesis by (simp only: a b c)
qed

lemma pct_100_97: "jsMul (jsDiv (jsSub 100 97) 100) 100 = 3"
proof -
  have a: "jsSub 100 97 = 3"
    using roundDouble_int [of 3] by (simp add: jsSub_def)
  have b: "jsDiv 3 100 = 1080863910568919 / 2 ^ 55"
    unfolding jsDiv_def
    using roundDouble_normal [of "- 6" "3 / 100"] by (simp add: pow2_def roundEven_def)
  have c: "jsMul (1080863910568919 / 2 ^ 55) 100 = 3"
    unfolding jsMul_def
    using roundDouble_normal [of 1 "1080863910568919 / 2 ^ 55 * 100"]
    by (simp add: pow2_def roundEven_def)
  show ?thesis by (simp only: a b c)
qed

lemma pct_485_480: "jsMul (jsDiv (jsSub 485 480) 485) 100 = 290180388361501 / 2 ^ 48"
proof -
  have a: "jsSub 485 480 = 5"
    using roundDouble_int [of 5] by (simp add: jsSub_def)
  have b: "jsDiv 5 485 = 5942894353643541 / 2 ^ 59"
    unfolding jsDiv_def
    using roundDouble_normal [of "- 7" "5 / 485"] by (simp add: pow2_def roundEven_def)
  have c: "jsMul (5942894353643541 / 2 ^ 59) 100 = 290180388361501 / 2 ^ 48"
    unfolding jsMul_def
    using roundDouble_normal [of 0 "5942894353643541 / 2 ^ 59 * 100"]
    by (simp add: pow2_def roundEven_def)
  show ?thesis by (simp only: a b c)
qed

section \<open>Price change analyzer\<close>

lemma calculatePriceChange_direction:
  assumes "0 < x" and "0 < y"
  shows "direction (calculatePriceChange m (Some x) (Some y)) =
           (if jsSub x y > jsLit (1 / 100) then Down
            else if jsSub x y < - jsLit (1 / 100) then Up
            else Unchanged)"
  using assms by (simp add: calculatePriceChange_def Let_def)

lemma calculatePriceChange_isDropped:
  "isDropped (calculatePriceChange m a b) = (direction (calculatePriceChange m a b) = Down)"
  by (simp add: calculatePriceChange_def Let_def)

lemma direction_Down_positive:
  assumes "direction (calculatePriceChange m a b) = Down"
  shows "truthy a \<and> truthy b \<and> 0 < toNumber a \<and> 0 < toNumber b \<and> toNumber b < toNumber a"
proof -
  from assms have g: "truthy a" "truthy b" "0 < toNumber a" "0 < toNumber b"
    and d: "jsLit (1 / 100) < jsSub (toNumber a) (toNumber b)"
    by (auto simp: calculatePriceChange_def Let_def split: if_splits)
  from d jsLit_001_pos have "0 < jsSub (toNumber a) (toNumber b)" by linarith
  then have "toNumber b < toNumber a" by (rule jsSub_pos)
  with g show ?thesis by simp
qed

text \<open>
  Claim C9 reads the test as one on the prices themselves: down exactly when old - new
  exceeds 0.01. The code subtracts in double precision and compares with the double
  nearest to 0.01, which is a little above 1/100, so the two differ at the boundary,
  whichever way the prices are read. Taken as the exact values of the doubles \<^verbatim>\<open>0.02\<close>
  and \<^verbatim>\<open>0.01\<close>, the prices differ by more than 1/100, yet the computed difference is
  the double \<^verbatim>\<open>0.01\<close> itself and the direction is unchanged. Taken as the decimals 100
  and 99.99, the prices differ by exactly 1/100, not more, yet the computed difference
  is above the double \<^verbatim>\<open>0.01\<close> and the direction is down.
\<close>

theorem C9_exact_difference_differs:
  "0 < jsLit (1 / 50) \<and> 0 < jsLit (1 / 100)
   \<and> jsLit (1 / 50) - jsLit (1 / 100) > 1 / 100
   \<and> direction (calculatePriceChange 2 (Some (jsLit (1 / 50))) (Some (jsLit (1 / 100))))
       = Unchanged
   \<and> 0 < jsLit (9999 / 100)
   \<and> \<not> (100 - 9999 / 100 > (1 / 100 :: real))
   \<and> direction (calculatePriceChange 2 (Some 100) (Some (jsLit (9999 / 100)))) = Down"
proof -
  have a: "jsSub (5764607523034235 / 2 ^ 58) (5764607523034235 / 2 ^ 59)
             = 5764607523034235 / 2 ^ 59"
    using roundDouble_dyadic [of 5764607523034235 59] by (simp add: jsSub_def)
  have b: "jsSub 100 (7036170730324623 / 2 ^ 46) = 703687441777 / 2 ^ 46"
    using roundDouble_dyadic [of 703687441777 46] by (simp add: jsSub_def)
  have u: "direction (calculatePriceChange 2 (Some (jsLit (1 / 50))) (Some (jsLit (1 / 100))))
       = Unchanged"
    using a by (simp add: calculatePriceChange_def Let_def jsLit_001 jsLit_002)
  have d: "direction (calculatePriceChange 2 (Some 100) (Some (jsLit (9999 / 100)))) = Down"
    using b by (simp add: calculatePriceChange_def Let_def jsLit_001 jsLit_9999)
  from u d show ?thesis by (simp add: jsLit_001 jsLit_002 jsLit_9999)
qed

text \<open>
  Claim C9, amended. For old and new prices that are both strictly positive, the
  direction is down exactly when the difference old - new, computed in double precision,
  exceeds the double nearest to 0.01, up exactly when it is below minus that double, and
  unchanged in every other case.
\<close>

theorem C9_direction_iff:
  assumes "0 < x" and "0 < y"
  shows "(direction (calculatePriceChange m (Some x) (Some y)) = Down
            \<longleftrightarrow> jsSub x y > jsLit (1 / 100))
       \<and> (direction (calculatePriceChange m (Some x) (Some y)) = Up
            \<longleftrightarrow> jsSub x y < - jsLit (1 / 100))
       \<and> (direction (calculatePriceChange m (Some x) (Some y)) = Unchanged
            \<longleftrightarrow> \<not> jsSub x y > jsLit (1 / 100) \<and> \<not> jsSub x y < - jsLit (1 / 100))"
  using assms jsLit_001_pos by (auto simp: calculatePriceChange_direction)

theorem C9_direction_iff_witness:
  "(0::real) < 1000 \<and> (0::real) < 900
   \<and> jsSub 1000 900 = 100 \<and> jsSub 900 1000 = - 100 \<and> jsSub 900 900 = 0
   \<and> direction (calculatePriceChange 2 (Some 1000) (Some 900)) = Down
   \<and> direction (calculatePriceChange 2 (Some 900) (Some 1000)) = Up
   \<and> direction (calculatePriceChange 2 (Some 900) (Some 900)) = Unchanged"
proof -
  have s: "jsSub 1000 900 = 100" "jsSub 900 1000 = - 100" "jsSub 900 900 = 0"
    using roundDouble_int [of 100] roundDouble_int [of "- 100"]
    by (simp_all add: jsSub_def)
  have p: "(0::real) < 1000" "(0::real) < 900" by simp_all
  from C9_direction_iff [OF p(1) p(2), of 2] C9_direction_iff [OF p(2) p(1), of 2]
    C9_direction_iff [OF p(2) p(2), of 2] s
  show ?thesis by (simp add: jsLit_001)
qed

section \<open>Alert decisions\<close>

lemma shouldTriggerAlert_not_down:
  assumes "direction (calculatePriceChange m a b) \<noteq> Down"
  shows "\<not> shouldAlert (shouldTriggerAlert m p a b)"
    and "reason (shouldTriggerAlert m p a b) = PriceDidNotDrop"
  using assms by (simp_all add: shouldTriggerAlert_def Let_def calculatePriceChange_isDropped)

lemma shouldTriggerAlert_threshold:
  assumes "direction (calculatePriceChange m a b) = Down"
    and "\<not> (truthy (last_alert_price p) \<and> toNumber b \<ge> toNumber (last_alert_price p))"
    and "\<not> (truthy (target_price p) \<and> toNumber b \<le> toNumber (target_price p))"
  shows "shouldAlert (shouldTriggerAlert m p a b)
           = (m \<le> \<bar>percentChange (calculatePriceChange m a b)\<bar>)"
    and "priority (shouldTriggerAlert m p a b)
           = (if m \<le> \<bar>percentChange (calculatePriceChange m a b)\<bar> then Some Normal else None)"
proof -
  have dropped: "isDropped (calculatePriceChange m a b)"
    using assms(1) by (simp add: calculatePriceChange_isDropped)
  have mean: "isMeaningful (calculatePriceChange m a b)
                = (m \<le> \<bar>percentChange (calculatePriceChange m a b)\<bar>)"
    using assms(1) by (auto simp: calculatePriceChange_def Let_def split: if_splits)
  show "shouldAlert (shouldTriggerAlert m p a b)
           = (m \<le> \<bar>percentChange (calculatePriceChange m a b)\<bar>)"
    using assms(2,3) dropped mean by (auto simp: shouldTriggerAlert_def Let_def)
  show "priority (shouldTriggerAlert m p a b)
           = (if m \<le> \<bar>percentChange (calculatePriceChange m a b)\<bar> then Some Normal else None)"
    using assms(2,3) dropped mean by (auto simp: shouldTriggerAlert_def Let_def)
qed

text \<open>
  Claim C1. Whenever the computed direction is not down, the decision the sweep uses
  gives no alert. The sweep calls \<open>shouldSendNotification\<close>, which never looks at the
  direction before its target-price rule: with a target of 150 and no earlier alert, a
  price that rises from 100 to 120, or stays at 100, is notified as "target reached".
  \<open>shouldTriggerAlert\<close>, which the sweep does not call, gives no alert on the same
  inputs (lemma \<open>shouldTriggerAlert_not_down\<close>).
\<close>

theorem C1_sweep_notifies_without_drop:
  "direction (calculatePriceChange (MIN_DROP_PERCENT None) (Some 100) (Some 120)) = Up
   \<and> shouldSendNotification (row 1 1 ''DAILY'' (Some 100) (Some 150) None) (Some 100) (Some 120)
       = \<lparr>notify = True, notifyReason = TargetReached 150\<rparr>
   \<and> direction (calculatePriceChange (MIN_DROP_PERCENT None) (Some 100) (Some 100)) = Unchanged
   \<and> shouldSendNotification (row 1 1 ''DAILY'' (Some 100) (Some 150) None) (Some 100) (Some 100)
       = \<lparr>notify = True, notifyReason = TargetReached 150\<rparr>
   \<and> \<not> shouldAlert (shouldTriggerAlert (MIN_DROP_PERCENT None)
           (row 1 1 ''DAILY'' (Some 100) (Some 150) None) (Some 100) (Some 120))
   \<and> \<not> shouldAlert (shouldTriggerAlert (MIN_DROP_PERCENT None)
           (row 1 1 ''DAILY'' (Some 100) (Some 150) None) (Some 100) (Some 100))"
proof -
  have s: "jsSub 100 120 = - 20" "jsSub 100 100 = 0"
    using roundDouble_int [of "- 20"] by (simp_all add: jsSub_def)
  show ?thesis
    by (simp add: calculatePriceChange_def shouldSendNotification_def shouldTriggerAlert_def
        MIN_DROP_PERCENT_def row_def Let_def s jsLit_001)
qed

theorem C1_sweep_notifies_without_drop_witness:
  "notify (shouldSendNotification (row 1 1 ''DAILY'' (Some 100) (Some 150) None)
     (Some 100) (Some 120))"
  using C1_sweep_notifies_without_drop by simp

text \<open>
  Claim C2. For a dropped price that is not duplicate-suppressed and whose target is
  unset or not reached, the decision alerts exactly when the drop percentage reaches
  \<open>MIN_DROP_PERCENT\<close>. \<open>shouldTriggerAlert\<close> does so (lemma
  \<open>shouldTriggerAlert_threshold\<close>); the decision the sweep uses does not consult the
  threshold: without a target it notifies a drop of 0.5 percent (100 to 99.5), and with
  an unreached target of 50 it stays silent on a drop of 3 percent (100 to 97).
\<close>

theorem C2_sweep_ignores_threshold:
  "direction (calculatePriceChange (MIN_DROP_PERCENT None) (Some 100) (Some (199 / 2))) = Down
   \<and> percentChange (calculatePriceChange (MIN_DROP_PERCENT None) (Some 100) (Some (199 / 2)))
        < MIN_DROP_PERCENT None
   \<and> notify (shouldSendNotification (row 1 1 ''DAILY'' (Some 100) None None)
        (Some 100) (Some (199 / 2)))
   \<and> \<not> shouldAlert (shouldTriggerAlert (MIN_DROP_PERCENT None)
        (row 1 1 ''DAILY'' (Some 100) None None) (Some 100) (Some (199 / 2)))
   \<and> direction (calculatePriceChange (MIN_DROP_PERCENT None) (Some 100) (Some 97)) = Down
   \<and> percentChange (calculatePriceChange (MIN_DROP_PERCENT None) (Some 100) (Some 97))
        \<ge> MIN_DROP_PERCENT None
   \<and> \<not> notify (shouldSendNotification (row 1 1 ''DAILY'' (Some 100) (Some 50) None)
        (Some 100) (Some 97))
   \<and> priority (shouldTriggerAlert (MIN_DROP_PERCENT None)
        (row 1 1 ''DAILY'' (Some 100) (Some 50) None) (Some 100) (Some 97)) = Some Normal"
proof -
  have s: "jsSub 100 (199 / 2) = 1 / 2" "jsSub 100 97 = 3"
    using roundDouble_dyadic [of 1 1] roundDouble_int [of 3] by (simp_all add: jsSub_def)
  have p: "jsMul (jsDiv (1 / 2) 100) 100 = 1 / 2" "jsMul (jsDiv 3 100) 100 = 3"
    using pct_100_995 pct_100_97 by (simp_all only: s)
  have t: "jsLit (dropPercentage 100 97) = 3"
    using roundDouble_int [of 3] pct_100_97 by (simp add: dropPercentage_def toFixed1_def jsLit_def)
  show ?thesis
    by (simp add: calculatePriceChange_def shouldSendNotification_def shouldTriggerAlert_def
        MIN_DROP_PERCENT_def row_def Let_def s p t jsLit_001)
qed

theorem C2_sweep_ignores_threshold_witness:
  "notify (shouldSendNotification (row 1 1 ''DAILY'' (Some 100) None None)
     (Some 100) (Some (199 / 2)))
   \<and> \<not> notify (shouldSendNotification (row 1 1 ''DAILY'' (Some 100) (Some 50) None)
     (Some 100) (Some 97))"
  using C2_sweep_ignores_threshold by simp

text \<open>
  Claim C3. When a last-alerted price is set and the new price is at or above it, no
  alert is given, whatever the target price and the old price are. "Set" is the test the
  code makes, \<^verbatim>\<open>product.last_alert_price && ...\<close>: a number other than 0. Both
  decision functions agree on this.
\<close>

theorem C3_duplicate_suppression:
  assumes "last_alert_price p = Some l" and "l \<noteq> 0" and "l \<le> n"
  shows "\<not> notify (shouldSendNotification p oldPrice (Some n))
       \<and> \<not> shouldAlert (shouldTriggerAlert m p oldPrice (Some n))"
  using assms by (simp add: shouldSendNotification_def shouldTriggerAlert_def Let_def)

theorem C3_duplicate_suppression_witness:
  "last_alert_price (row 1 1 ''DAILY'' (Some 120) (Some 150) (Some 100)) = Some 100
   \<and> (100::real) \<noteq> 0 \<and> (100::real) \<le> 100
   \<and> \<not> notify (shouldSendNotification (row 1 1 ''DAILY'' (Some 120) (Some 150) (Some 100))
          (Some 120) (Some 100))
   \<and> \<not> shouldAlert (shouldTriggerAlert 2 (row 1 1 ''DAILY'' (Some 120) (Some 150) (Some 100))
          (Some 120) (Some 100))"
  using C3_duplicate_suppression
    [of "row 1 1 ''DAILY'' (Some 120) (Some 150) (Some 100)" 100 100 "Some 120" 2]
  by (simp add: row_def)

text \<open>
  Claim C7. With a target price set, no earlier alert (\<^verbatim>\<open>last_alert_price\<close> is
  \<^verbatim>\<open>null\<close>, or 0), and a dropped price at or below the target, \<open>shouldTriggerAlert\<close> alerts with priority high, whatever the threshold
  is; the decision of the sweep notifies as well (it has no priority field). With a
  target of 500 and a drop from 485 to 480, about 1.03 percent, the alert is given
  although the drop is below the default threshold of 2 percent.
\<close>

theorem C7_target_reached_high:
  assumes "target_price p = Some t" and "\<not> truthy (last_alert_price p)"
    and "direction (calculatePriceChange m oldPrice (Some n)) = Down" and "n \<le> t"
  shows "shouldAlert (shouldTriggerAlert m p oldPrice (Some n))
       \<and> priority (shouldTriggerAlert m p oldPrice (Some n)) = Some High
       \<and> reason (shouldTriggerAlert m p oldPrice (Some n)) = TargetPriceReached t
       \<and> notify (shouldSendNotification p oldPrice (Some n))"
proof -
  from direction_Down_positive [OF assms(3)]
  have pos: "truthy oldPrice" "0 < n" by simp_all
  with assms(4) have t: "t \<noteq> 0" by simp
  have dropped: "isDropped (calculatePriceChange m oldPrice (Some n))"
    using assms(3) by (simp add: calculatePriceChange_isDropped)
  show ?thesis
    using assms(1,2,4) pos t dropped
    by (simp add: shouldTriggerAlert_def shouldSendNotification_def Let_def)
qed

theorem C7_target_reached_high_witness:
  "target_price (row 1 1 ''DAILY'' (Some 485) (Some 500) None) = Some 500
   \<and> \<not> truthy (last_alert_price (row 1 1 ''DAILY'' (Some 485) (Some 500) None))
   \<and> direction (calculatePriceChange (MIN_DROP_PERCENT None) (Some 485) (Some 480)) = Down
   \<and> (480::real) \<le> 500
   \<and> \<not> isMeaningful (calculatePriceChange (MIN_DROP_PERCENT None) (Some 485) (Some 480))
   \<and> shouldAlert (shouldTriggerAlert (MIN_DROP_PERCENT None)
        (row 1 1 ''DAILY'' (Some 485) (Some 500) None) (Some 485) (Some 480))
   \<and> priority (shouldTriggerAlert (MIN_DROP_PERCENT None)
        (row 1 1 ''DAILY'' (Some 485) (Some 500) None) (Some 485) (Some 480)) = Some High"
proof -
  have s: "jsSub 485 480 = 5"
    using roundDouble_int [of 5] by (simp add: jsSub_def)
  have pc: "jsMul (jsDiv 5 485) 100 = 290180388361501 / 2 ^ 48"
    using pct_485_480 by (simp only: s)
  have d: "direction (calculatePriceChange (MIN_DROP_PERCENT None) (Some 485) (Some 480)) = Down"
    by (simp add: calculatePriceChange_def MIN_DROP_PERCENT_def Let_def s jsLit_001)
  have nm: "\<not> isMeaningful (calculatePriceChange (MIN_DROP_PERCENT None) (Some 485) (Some 480))"
    by (simp add: calculatePriceChange_def MIN_DROP_PERCENT_def Let_def s pc jsLit_001)
  have tp: "target_price (row 1 1 ''DAILY'' (Some 485) (Some 500) None) = Some 500"
    and la: "\<not> truthy (last_alert_price (row 1 1 ''DAILY'' (Some 485) (Some 500) None))"
    by (simp_all add: row_def)
  from C7_target_reached_high [OF tp la d] d nm tp la show ?thesis by simp
qed

section \<open>Eligibility\<close>

lemma toUpperCase_DAILY: "toUpperCase ''DAILY'' = ''DAILY''"
  by (simp add: toUpperCase_def upperChar_def)

text \<open>
  Claim C8. For a user whose effective check interval (the user's own
  \<^verbatim>\<open>check_interval\<close>, else the plan's) reads DAILY, a product is eligible exactly when it
  has no last-checked timestamp or at least 20 hours (72000000 ms) have passed since.
\<close>

theorem C8_daily_eligibility:
  assumes "toUpperCase (orElse (u_check_interval u) (checkInterval (getUserPlan u))) = ''DAILY''"
  shows "eligible (isEligibleForCheck now u p)
       = (case last_checked_at p of
            None \<Rightarrow> True
          | Some t \<Rightarrow> nowMs now - t \<ge> 20 * 60 * 60 * 1000)"
  using assms by (simp add: isEligibleForCheck_def Let_def split: option.split)

theorem C8_daily_eligibility_witness:
  "toUpperCase (orElse (u_check_interval (mkUser (row 1 1 ''DAILY'' None None None)))
       (checkInterval (getUserPlan (mkUser (row 1 1 ''DAILY'' None None None))))) = ''DAILY''
   \<and> eligible (isEligibleForCheck \<lparr>nowMs = 1000000000, dayOfWeek = 3\<rparr>
        (mkUser (row 1 1 ''DAILY'' None None None))
        ((row 1 1 ''DAILY'' None None None)
           \<lparr>last_checked_at := Some (1000000000 - 20 * 3600000 - 60000)\<rparr>))
   \<and> \<not> eligible (isEligibleForCheck \<lparr>nowMs = 1000000000, dayOfWeek = 3\<rparr>
        (mkUser (row 1 1 ''DAILY'' None None None))
        ((row 1 1 ''DAILY'' None None None)
           \<lparr>last_checked_at := Some (1000000000 - 19 * 3600000)\<rparr>))
   \<and> eligible (isEligibleForCheck \<lparr>nowMs = 1000000000, dayOfWeek = 3\<rparr>
        (mkUser (row 1 1 ''DAILY'' None None None)) (row 1 1 ''DAILY'' None None None))"
proof -
  have h: "toUpperCase (orElse (u_check_interval (mkUser (row 1 1 ''DAILY'' None None None)))
       (checkInterval (getUserPlan (mkUser (row 1 1 ''DAILY'' None None None))))) = ''DAILY''"
    by (simp add: mkUser_def row_def toUpperCase_DAILY)
  show ?thesis
    using h C8_daily_eligibility [OF h, of "\<lparr>nowMs = 1000000000, dayOfWeek = 3\<rparr>"]
    by (simp add: row_def)
qed

section \<open>Retry wrapper\<close>

lemma scrapeAttempts_done:
  "\<not> attempt \<le> retries \<Longrightarrow> scrapeAttempts f retries attempt = \<lparr>calls = attempt, scrapedData = None\<rparr>"
  by (subst scrapeAttempts.simps) simp

lemma scrapeAttempts_hit:
  "attempt \<le> retries \<Longrightarrow> f attempt = Returns (Some r) \<Longrightarrow> truthy (price r) \<Longrightarrow>
     scrapeAttempts f retries attempt = \<lparr>calls = attempt + 1, scrapedData = Some r\<rparr>"
  by (subst scrapeAttempts.simps) simp

lemma scrapeAttempts_miss:
  "attempt \<le> retries \<Longrightarrow> \<not> usable (f attempt) \<Longrightarrow>
     scrapeAttempts f retries attempt = scrapeAttempts f retries (attempt + 1)"
  by (subst scrapeAttempts.simps, cases "f attempt" rule: usable.cases) simp_all

lemma usable_iff: "usable x \<longleftrightarrow> (\<exists>r. x = Returns (Some r) \<and> truthy (price r))"
  by (cases x rule: usable.cases) auto

lemma scrapeAttempts_calls:
  "attempt \<le> retries + 1 \<Longrightarrow>
     attempt \<le> calls (scrapeAttempts f retries attempt)
     \<and> calls (scrapeAttempts f retries attempt) \<le> retries + 1"
proof (induction "retries + 1 - attempt" arbitrary: attempt)
  case 0
  then show ?case by (simp add: scrapeAttempts_done)
next
  case (Suc n)
  then have le: "attempt \<le> retries" by simp
  show ?case
  proof (cases "usable (f attempt)")
    case True
    then obtain r where "f attempt = Returns (Some r)" "truthy (price r)"
      by (auto simp: usable_iff)
    with le show ?thesis by (simp add: scrapeAttempts_hit)
  next
    case False
    from Suc(2) le have "n = retries + 1 - (attempt + 1)" by simp
    from Suc(1) [OF this] le
    have "attempt + 1 \<le> calls (scrapeAttempts f retries (attempt + 1))
          \<and> calls (scrapeAttempts f retries (attempt + 1)) \<le> retries + 1" by simp
    with le False show ?thesis by (simp add: scrapeAttempts_miss)
  qed
qed

lemma scrapeAttempts_all_fail:
  "attempt \<le> retries + 1 \<Longrightarrow> (\<And>k. attempt \<le> k \<Longrightarrow> k \<le> retries \<Longrightarrow> \<not> usable (f k)) \<Longrightarrow>
     scrapeAttempts f retries attempt = \<lparr>calls = retries + 1, scrapedData = None\<rparr>"
proof (induction "retries + 1 - attempt" arbitrary: attempt)
  case 0
  then show ?case by (simp add: scrapeAttempts_done)
next
  case (Suc n)
  then have le: "attempt \<le> retries" by simp
  then have nu: "\<not> usable (f attempt)" using Suc(4) by simp
  from Suc(2) le have "n = retries + 1 - (attempt + 1)" by simp
  from Suc(1) [OF this] le Suc(4)
  have "scrapeAttempts f retries (attempt + 1) = \<lparr>calls = retries + 1, scrapedData = None\<rparr>"
    by simp
  with le nu show ?case by (simp add: scrapeAttempts_miss)
qed

lemma scrapeAttempts_first_usable:
  "attempt \<le> k \<Longrightarrow> k \<le> retries \<Longrightarrow> f k = Returns (Some r) \<Longrightarrow> truthy (price r) \<Longrightarrow>
   (\<And>j. attempt \<le> j \<Longrightarrow> j < k \<Longrightarrow> \<not> usable (f j)) \<Longrightarrow>
     scrapeAttempts f retries attempt = \<lparr>calls = k + 1, scrapedData = Some r\<rparr>"
proof (induction "k - attempt" arbitrary: attempt)
  case 0
  then have "attempt = k" by simp
  with 0 show ?case by (simp add: scrapeAttempts_hit)
next
  case (Suc n)
  then have lt: "attempt < k" by simp
  then have nu: "\<not> usable (f attempt)" using Suc(7) by simp
  from Suc(2) have "n = k - (attempt + 1)" by simp
  from Suc(1) [OF this _ Suc(4) Suc(5) Suc(6)] lt Suc(7)
  have "scrapeAttempts f retries (attempt + 1) = \<lparr>calls = k + 1, scrapedData = Some r\<rparr>"
    by simp
  with lt Suc(4) nu show ?case by (simp add: scrapeAttempts_miss)
qed

text \<open>
  Claim C6. For every sequence of fetch outcomes and every number of retries,
  \<open>scrapeWithRetry\<close> calls the fetch at most \<open>retries + 1\<close> times; when no attempt
  gives a usable price (it throws, returns \<^verbatim>\<open>null\<close>, or returns a result whose price is
  missing or 0) it returns \<^verbatim>\<open>null\<close> after exactly \<open>retries + 1\<close> calls; and when
  attempt \<open>k\<close> is the first with a usable price it returns that result after \<open>k + 1\<close>
  calls. The function is total: a throwing fetch is a value it consumes.
\<close>

theorem C6_retry_bounded:
  "calls (scrapeWithRetry f retries) \<le> retries + 1
   \<and> ((\<forall>k\<le>retries. \<not> usable (f k)) \<longrightarrow>
        scrapeWithRetry f retries = \<lparr>calls = retries + 1, scrapedData = None\<rparr>)
   \<and> (\<forall>k r. k \<le> retries \<and> f k = Returns (Some r) \<and> truthy (price r)
          \<and> (\<forall>j<k. \<not> usable (f j)) \<longrightarrow>
        scrapeWithRetry f retries = \<lparr>calls = k + 1, scrapedData = Some r\<rparr>)"
  unfolding scrapeWithRetry_def
  using scrapeAttempts_calls [of 0 retries f] scrapeAttempts_all_fail [of 0 retries f]
    scrapeAttempts_first_usable [of 0 _ retries f]
  by auto

theorem C6_retry_bounded_witness:
  "\<not> usable (Throws :: scraped option outcome)
   \<and> scrapeWithRetry (\<lambda>k. Throws) 1 = \<lparr>calls = 2, scrapedData = None\<rparr>
   \<and> flaky 1 = Returns (Some \<lparr>scraped_title = ''Item'', price = Some 480\<rparr>)
   \<and> \<not> usable (flaky 0)
   \<and> scrapeWithRetry flaky 1
       = \<lparr>calls = 2, scrapedData = Some \<lparr>scraped_title = ''Item'', price = Some 480\<rparr>\<rparr>"
proof -
  have h: "\<forall>k\<le>(1::nat). \<not> usable ((\<lambda>k. Throws :: scraped option outcome) k)" by simp
  have a: "scrapeWithRetry (\<lambda>k. Throws) 1 = \<lparr>calls = 1 + 1, scrapedData = None\<rparr>"
    using C6_retry_bounded [of "\<lambda>k. Throws" 1, THEN conjunct2, THEN conjunct1, THEN mp, OF h] .
  have g: "(1::nat) \<le> 1 \<and> flaky 1 = Returns (Some \<lparr>scraped_title = ''Item'', price = Some 480\<rparr>)
      \<and> truthy (price \<lparr>scraped_title = ''Item'', price = Some 480\<rparr>) \<and> (\<forall>j<1. \<not> usable (flaky j))"
    by (simp add: flaky_def)
  have b: "scrapeWithRetry flaky 1
       = \<lparr>calls = 1 + 1, scrapedData = Some \<lparr>scraped_title = ''Item'', price = Some 480\<rparr>\<rparr>"
    using C6_retry_bounded [of flaky 1, THEN conjunct2, THEN conjunct2, THEN spec, THEN spec, THEN mp, OF g] .
  have c: "\<not> usable (flaky 0)" by (simp add: flaky_def)
  from a b c g show ?thesis by simp
qed


section \<open>The sweep\<close>

lemmas counter_defs = incChecked_def incSkipped_def incPriceDrops_def incNotificationsSent_def
  incErrors_def writePrice_def writeHistory_def writeAlertStatus_def

lemma dispatchNotification_counters:
  "productsChecked (stats (dispatchNotification w p n r s)) = productsChecked (stats s)"
  "productsSkipped (stats (dispatchNotification w p n r s)) = productsSkipped (stats s)"
  "errors (stats (dispatchNotification w p n r s)) = errors (stats s)"
  "priceDrops (stats (dispatchNotification w p n r s)) = priceDrops (stats s)"
  "lastRun (stats (dispatchNotification w p n r s)) = lastRun (stats s)"
  by (simp_all add: dispatchNotification_def counter_defs Let_def split: outcome.split)

lemma dispatchNotification_tables:
  "currentPrices (database (dispatchNotification w p n r s)) = currentPrices (database s)"
  "titles (database (dispatchNotification w p n r s)) = titles (database s)"
  "priceHistory (database (dispatchNotification w p n r s)) = priceHistory (database s)"
  by (simp_all add: dispatchNotification_def counter_defs Let_def split: outcome.split)

lemma dispatchNotification_send_throws:
  "sendMessage w (product_id p) = Throws \<Longrightarrow> dispatchNotification w p n r s = s"
  by (simp add: dispatchNotification_def)

lemma scrapeAttempts_usable:
  "scrapedData (scrapeAttempts f retries attempt) = Some d \<Longrightarrow> truthy (price d)"
proof (induction "retries + 1 - attempt" arbitrary: attempt)
  case 0
  then have "\<not> attempt \<le> retries" by simp
  with 0(2) show ?case by (simp add: scrapeAttempts_done)
next
  case (Suc n)
  then have le: "attempt \<le> retries" by simp
  show ?case
  proof (cases "usable (f attempt)")
    case True
    then obtain r where "f attempt = Returns (Some r)" "truthy (price r)"
      by (auto simp: usable_iff)
    with le Suc(3) show ?thesis by (simp add: scrapeAttempts_hit)
  next
    case False
    from Suc(2) le have "n = retries + 1 - (attempt + 1)" by simp
    moreover from le False Suc(3)
    have "scrapedData (scrapeAttempts f retries (attempt + 1)) = Some d"
      by (simp add: scrapeAttempts_miss)
    ultimately show ?thesis by (rule Suc(1))
  qed
qed

lemma scrapeWithRetry_usable:
  "scrapedData (scrapeWithRetry f retries) = Some d \<Longrightarrow> truthy (price d)"
  unfolding scrapeWithRetry_def by (rule scrapeAttempts_usable)

text \<open>The three ways an eligible item ends.\<close>

lemma tryBody_no_price:
  assumes "scrapedData (scrapeWithRetry (scrapeAmazonProduct w (product_id p)) 1) = None"
  shows "tryBody w p s = Completed (incErrors s)"
  using assms by (simp add: tryBody_def)

lemma tryBody_update_throws:
  assumes "scrapedData (scrapeWithRetry (scrapeAmazonProduct w (product_id p)) 1) = Some d"
    and "updateProductPrice w (product_id p) = Throws"
  shows "tryBody w p s = Thrown s"
  using assms scrapeWithRetry_usable [OF assms(1)] by (simp add: tryBody_def)

lemma tryBody_history_throws:
  assumes "scrapedData (scrapeWithRetry (scrapeAmazonProduct w (product_id p)) 1) = Some d"
    and "updateProductPrice w (product_id p) = Returns ()"
    and "addPriceHistory w (product_id p) = Throws"
  shows "tryBody w p s = Thrown (writePrice (product_id p) (price d) (scraped_title d) s)"
  using assms scrapeWithRetry_usable [OF assms(1)] by (simp add: tryBody_def Let_def)

lemma tryBody_persisted:
  assumes "scrapedData (scrapeWithRetry (scrapeAmazonProduct w (product_id p)) 1) = Some d"
    and "updateProductPrice w (product_id p) = Returns ()"
    and "addPriceHistory w (product_id p) = Returns ()"
  shows "tryBody w p s =
    (let s2 = incChecked (writeHistory (product_id p) (price d)
                (writePrice (product_id p) (price d) (scraped_title d) s));
         shouldNotify = shouldSendNotification p (current_price p) (price d)
     in if notify shouldNotify
        then Completed (dispatchNotification w p (price d) (notifyReason shouldNotify) (incPriceDrops s2))
        else Completed s2)"
  using assms scrapeWithRetry_usable [OF assms(1)] by (simp add: tryBody_def Let_def)

lemma unit_outcome_cases: "(x :: unit outcome) = Returns () \<or> x = Throws"
  by (cases x) simp_all

text \<open>The five ways one iteration of the loop ends.\<close>

lemma processProduct_cases [case_names skipped no_price update_throws history_throws persisted]:
  obtains
    (skipped) "\<not> eligible (isEligibleForCheck (clockAt w (product_id p)) u p)"
      and "processProduct w u p s = incSkipped s"
  | (no_price) "eligible (isEligibleForCheck (clockAt w (product_id p)) u p)"
      and "scrapedData (scrapeWithRetry (scrapeAmazonProduct w (product_id p)) 1) = None"
      and "processProduct w u p s = incErrors s"
  | (update_throws) d where "eligible (isEligibleForCheck (clockAt w (product_id p)) u p)"
      and "scrapedData (scrapeWithRetry (scrapeAmazonProduct w (product_id p)) 1) = Some d"
      and "updateProductPrice w (product_id p) = Throws"
      and "processProduct w u p s = incErrors s"
  | (history_throws) d where "eligible (isEligibleForCheck (clockAt w (product_id p)) u p)"
      and "scrapedData (scrapeWithRetry (scrapeAmazonProduct w (product_id p)) 1) = Some d"
      and "updateProductPrice w (product_id p) = Returns ()"
      and "addPriceHistory w (product_id p) = Throws"
      and "processProduct w u p s
             = incErrors (writePrice (product_id p) (price d) (scraped_title d) s)"
  | (persisted) d where "eligible (isEligibleForCheck (clockAt w (product_id p)) u p)"
      and "scrapedData (scrapeWithRetry (scrapeAmazonProduct w (product_id p)) 1) = Some d"
      and "updateProductPrice w (product_id p) = Returns ()"
      and "addPriceHistory w (product_id p) = Returns ()"
      and "processProduct w u p s =
             (if notify (shouldSendNotification p (current_price p) (price d))
              then dispatchNotification w p (price d)
                     (notifyReason (shouldSendNotification p (current_price p) (price d)))
                     (incPriceDrops (incChecked (writeHistory (product_id p) (price d)
                        (writePrice (product_id p) (price d) (scraped_title d) s))))
              else incChecked (writeHistory (product_id p) (price d)
                     (writePrice (product_id p) (price d) (scraped_title d) s)))"
proof (cases "eligible (isEligibleForCheck (clockAt w (product_id p)) u p)")
  case False
  then show thesis by (intro skipped) (simp_all add: processProduct_def)
next
  case True
  show thesis
  proof (cases "scrapedData (scrapeWithRetry (scrapeAmazonProduct w (product_id p)) 1)")
    case None
    with True show thesis
      by (intro no_price) (simp_all add: processProduct_def tryBody_no_price)
  next
    case (Some d)
    consider (a) "updateProductPrice w (product_id p) = Throws"
      | (b) "updateProductPrice w (product_id p) = Returns ()"
            "addPriceHistory w (product_id p) = Throws"
      | (c) "updateProductPrice w (product_id p) = Returns ()"
            "addPriceHistory w (product_id p) = Returns ()"
      using unit_outcome_cases by blast
    then show thesis
    proof cases
      case a
      with True Some show thesis
        by (intro update_throws [of d]) (simp_all add: processProduct_def tryBody_update_throws)
    next
      case b
      with True Some show thesis
        by (intro history_throws [of d]) (simp_all add: processProduct_def tryBody_history_throws)
    next
      case c
      with True Some show thesis
        by (intro persisted [of d]) (simp_all add: processProduct_def tryBody_persisted Let_def)
    qed
  qed
qed

lemma processProduct_one_counter:
  "(productsChecked (stats (processProduct w u p s)) = productsChecked (stats s) + 1
      \<and> productsSkipped (stats (processProduct w u p s)) = productsSkipped (stats s)
      \<and> errors (stats (processProduct w u p s)) = errors (stats s))
   \<or> (productsChecked (stats (processProduct w u p s)) = productsChecked (stats s)
      \<and> productsSkipped (stats (processProduct w u p s)) = productsSkipped (stats s) + 1
      \<and> errors (stats (processProduct w u p s)) = errors (stats s))
   \<or> (productsChecked (stats (processProduct w u p s)) = productsChecked (stats s)
      \<and> productsSkipped (stats (processProduct w u p s)) = productsSkipped (stats s)
      \<and> errors (stats (processProduct w u p s)) = errors (stats s) + 1)"
  by (cases rule: processProduct_cases [of w p u s])
    (simp_all add: dispatchNotification_counters counter_defs)

lemma processProduct_accounted: "accounted (processProduct w u p s) = accounted s + 1"
  using processProduct_one_counter [of w u p s] by (auto simp: accounted_def)

lemma processAll_accounted: "accounted (processAll w xs s) = accounted s + length xs"
  by (induction xs arbitrary: s) (auto simp: processProduct_accounted)

lemma processAll_append: "processAll w (xs @ ys) s = processAll w ys (processAll w xs s)"
  by (induction xs arbitrary: s) auto

lemma processProducts_processAll: "processProducts w u ps s = processAll w (map (Pair u) ps) s"
  by (induction ps arbitrary: s) auto

lemma processUsers_processAll:
  "processUsers w g s = processAll w (concat (map (\<lambda>(k, u, ps). map (Pair u) ps) g)) s"
  by (induction g arbitrary: s) (auto simp: processAll_append processProducts_processAll)

lemma run_processAll:
  assumes "loadProducts w iv = Returns products"
  shows "runPriceCheckByInterval w t iv s
         = processAll w (candidates products) (s\<lparr>stats := resetStats t\<rparr>)"
proof (cases "products = []")
  case True
  with assms show ?thesis
    by (simp add: runPriceCheckByInterval_def candidates_def productsByUser_def objectKeys_def)
next
  case False
  with assms show ?thesis
    by (simp add: runPriceCheckByInterval_def candidates_def processUsers_processAll Let_def)
qed


lemma flat_addProduct:
  "image_mset snd (mset (concat (map (\<lambda>(k, u, ps). map (Pair u) ps) (addProduct p g))))
   = add_mset p (image_mset snd (mset (concat (map (\<lambda>(k, u, ps). map (Pair u) ps) g))))"
  by (induction g) (auto simp: comp_def)

lemma flat_productsByUser_aux:
  "image_mset snd (mset (concat (map (\<lambda>(k, u, ps). map (Pair u) ps)
       (foldl (\<lambda>g p. addProduct p g) g0 products))))
   = mset products + image_mset snd (mset (concat (map (\<lambda>(k, u, ps). map (Pair u) ps) g0)))"
  by (induction products arbitrary: g0) (simp_all add: flat_addProduct)

lemma sum_list_sort_key:
  fixes F :: "'a \<Rightarrow> 'b multiset"
  shows "sum_list (map F (sort_key k g)) = sum_list (map F g)"
proof -
  have "sum_list (map F (sort_key k g)) = sum_mset (image_mset F (mset (sort_key k g)))"
    by (metis mset_map sum_mset_sum_list)
  also have "\<dots> = sum_mset (image_mset F (mset g))" by simp
  also have "\<dots> = sum_list (map F g)" by (metis mset_map sum_mset_sum_list)
  finally show ?thesis .
qed

lemma flat_sort_key: "mset (concat (map h (sort_key k g))) = mset (concat (map h g))"
  by (simp add: mset_concat comp_def sum_list_sort_key)

lemma flat_filter_split:
  "mset (concat (map h (filter P g))) + mset (concat (map h (filter (\<lambda>x. \<not> P x) g)))
   = mset (concat (map h g))"
  by (induction g) simp_all

lemma flat_objectKeys: "mset (concat (map h (objectKeys g))) = mset (concat (map h g))"
proof -
  have "mset (concat (map h (objectKeys g)))
        = mset (concat (map h (sort_key fst (filter (\<lambda>entry. fst entry < 4294967295) g))))
          + mset (concat (map h (filter (\<lambda>entry. \<not> fst entry < 4294967295) g)))"
    by (simp add: objectKeys_def)
  also have "\<dots> = mset (concat (map h (filter (\<lambda>entry. fst entry < 4294967295) g)))
          + mset (concat (map h (filter (\<lambda>entry. \<not> fst entry < 4294967295) g)))"
    by (simp only: flat_sort_key)
  also have "\<dots> = mset (concat (map h g))" by (rule flat_filter_split)
  finally show ?thesis .
qed

lemma candidates_mset: "image_mset snd (mset (candidates products)) = mset products"
proof -
  have "image_mset snd (mset (candidates products))
        = image_mset snd (mset (concat (map (\<lambda>(k, u, ps). map (Pair u) ps) (productsByUser products))))"
    by (simp add: candidates_def flat_objectKeys)
  also have "\<dots> = mset products"
    using flat_productsByUser_aux [of "[]" products] by (simp add: productsByUser_def)
  finally show ?thesis .
qed

lemma candidates_length: "length (candidates products) = length products"
proof -
  have "size (image_mset snd (mset (candidates products))) = size (mset products)"
    by (simp only: candidates_mset)
  then show ?thesis by simp
qed

lemma processProduct_persisted:
  assumes "eligible (isEligibleForCheck (clockAt w (product_id p)) u p)"
    and "scrapedData (scrapeWithRetry (scrapeAmazonProduct w (product_id p)) 1) = Some d"
    and "updateProductPrice w (product_id p) = Returns ()"
    and "addPriceHistory w (product_id p) = Returns ()"
  shows "currentPrices (database (processProduct w u p s)) (product_id p) = price d"
    and "priceHistory (database (processProduct w u p s))
           = priceHistory (database s) @ [(product_id p, price d)]"
    and "productsChecked (stats (processProduct w u p s)) = productsChecked (stats s) + 1"
    and "errors (stats (processProduct w u p s)) = errors (stats s)"
  using assms
  by (simp_all add: processProduct_def tryBody_persisted Let_def dispatchNotification_counters
      dispatchNotification_tables counter_defs)

lemma processProduct_history_grows:
  "\<exists>zs. priceHistory (database (processProduct w u p s)) = priceHistory (database s) @ zs"
  by (cases rule: processProduct_cases [of w p u s])
    (simp_all add: dispatchNotification_tables counter_defs)

lemma processAll_history_grows:
  "\<exists>zs. priceHistory (database (processAll w xs s)) = priceHistory (database s) @ zs"
proof (induction xs arbitrary: s)
  case Nil
  show ?case by simp
next
  case (Cons x xs)
  obtain u p where x: "x = (u, p)" by (cases x)
  from processProduct_history_grows [of w u p s] obtain zs
    where 1: "priceHistory (database (processProduct w u p s)) = priceHistory (database s) @ zs" ..
  from Cons [of "processProduct w u p s"] obtain zs'
    where 2: "priceHistory (database (processAll w xs (processProduct w u p s)))
              = priceHistory (database (processProduct w u p s)) @ zs'" ..
  from 1 2 x show ?case by simp
qed

lemma processProduct_other_price:
  assumes "product_id p \<noteq> i"
  shows "currentPrices (database (processProduct w u p s)) i = currentPrices (database s) i"
  using assms
  by (cases rule: processProduct_cases [of w p u s])
    (simp_all add: dispatchNotification_tables counter_defs)

lemma processAll_other_price:
  "i \<notin> product_id ` snd ` set xs \<Longrightarrow>
     currentPrices (database (processAll w xs s)) i = currentPrices (database s) i"
  by (induction xs arbitrary: s) (auto simp: processProduct_other_price)

lemmas run_defs = runPriceCheckByInterval_def loadProducts_def sweepWorld_def
  productsByUser_def objectKeys_def row_def emptyState_def resetStats_def
  processProduct_def isEligibleForCheck_def mkUser_def toUpperCase_def upperChar_def
  getUserPlan_def getPlanById_def PLANS_PRO_def PLANS_FREE_def Let_def
  tryBody_def scrapeWithRetry_def scrapeAttempts_done scrapeAttempts_hit scrapeAttempts_miss
  quote90_def shouldSendNotification_def dispatchNotification_def counter_defs toFixed1_def

lemma processProduct_skipped:
  "productsSkipped (stats (processProduct w u p s))
     = productsSkipped (stats s)
       + (if eligible (isEligibleForCheck (clockAt w (product_id p)) u p) then 0 else 1)"
  by (cases rule: processProduct_cases [of w p u s])
    (simp_all add: dispatchNotification_counters counter_defs)

lemma processProduct_checked:
  "productsChecked (stats (processProduct w u p s))
     = productsChecked (stats s)
       + (if eligible (isEligibleForCheck (clockAt w (product_id p)) u p)
            \<and> scrapedData (scrapeWithRetry (scrapeAmazonProduct w (product_id p)) 1) \<noteq> None
            \<and> updateProductPrice w (product_id p) = Returns ()
            \<and> addPriceHistory w (product_id p) = Returns ()
          then 1 else 0)"
  by (cases rule: processProduct_cases [of w p u s])
    (simp_all add: dispatchNotification_counters counter_defs)

lemma accounted_reset: "accounted (s\<lparr>stats := resetStats t\<rparr>) = 0"
  by (simp add: accounted_def resetStats_def)

text \<open>
  Claim C10. Every candidate the sweep iterates over increments exactly one of
  \<open>productsSkipped\<close> (it was ineligible), \<open>errors\<close> (no usable price was fetched, or
  a database write threw before the checked increment) and \<open>productsChecked\<close> (price
  and history were written). So after processing a list of candidates the three counters
  have grown by its length, and after a whole sweep they add up to the number of rows
  loaded (0 when loading threw). The dispatch of a notification changes none of the
  three, and a dispatch whose send throws changes nothing at all.
\<close>

theorem C10_counters_partition:
  "((productsChecked (stats (processProduct w u p s)) = productsChecked (stats s) + 1
      \<and> productsSkipped (stats (processProduct w u p s)) = productsSkipped (stats s)
      \<and> errors (stats (processProduct w u p s)) = errors (stats s))
   \<or> (productsChecked (stats (processProduct w u p s)) = productsChecked (stats s)
      \<and> productsSkipped (stats (processProduct w u p s)) = productsSkipped (stats s) + 1
      \<and> errors (stats (processProduct w u p s)) = errors (stats s))
   \<or> (productsChecked (stats (processProduct w u p s)) = productsChecked (stats s)
      \<and> productsSkipped (stats (processProduct w u p s)) = productsSkipped (stats s)
      \<and> errors (stats (processProduct w u p s)) = errors (stats s) + 1))
   \<and> productsSkipped (stats (processProduct w u p s))
       = productsSkipped (stats s)
         + (if eligible (isEligibleForCheck (clockAt w (product_id p)) u p) then 0 else 1)
   \<and> productsChecked (stats (processProduct w u p s))
       = productsChecked (stats s)
         + (if eligible (isEligibleForCheck (clockAt w (product_id p)) u p)
              \<and> scrapedData (scrapeWithRetry (scrapeAmazonProduct w (product_id p)) 1) \<noteq> None
              \<and> updateProductPrice w (product_id p) = Returns ()
              \<and> addPriceHistory w (product_id p) = Returns ()
            then 1 else 0)
   \<and> accounted (processAll w xs s) = accounted s + length xs
   \<and> accounted (runPriceCheckByInterval w t iv s)
       = (case loadProducts w iv of Throws \<Rightarrow> 0 | Returns products \<Rightarrow> length products)
   \<and> (sendMessage w (product_id p) = Throws \<longrightarrow> dispatchNotification w p n r s = s)
   \<and> productsChecked (stats (dispatchNotification w p n r s)) = productsChecked (stats s)
   \<and> productsSkipped (stats (dispatchNotification w p n r s)) = productsSkipped (stats s)
   \<and> errors (stats (dispatchNotification w p n r s)) = errors (stats s)"
proof -
  have run: "accounted (runPriceCheckByInterval w t iv s)
       = (case loadProducts w iv of Throws \<Rightarrow> 0 | Returns products \<Rightarrow> length products)"
  proof (cases "loadProducts w iv")
    case (Returns products)
    then show ?thesis
      by (simp add: run_processAll processAll_accounted accounted_reset candidates_length)
  next
    case Throws
    then show ?thesis by (simp add: runPriceCheckByInterval_def accounted_reset)
  qed
  show ?thesis
    using processProduct_one_counter [of w u p s] processProduct_skipped [of w u p s]
      processProduct_checked [of w u p s] processAll_accounted [of w xs s] run
      dispatchNotification_send_throws [of w p n r s] dispatchNotification_counters(1-3) [of w p n r s]
    by (intro conjI impI) assumption+
qed

theorem C10_counters_partition_witness:
  "loadProducts secondFetchThrows None = Returns threeRows
   \<and> accounted (runPriceCheckByInterval secondFetchThrows 0 None emptyState) = 3
   \<and> sendMessage notifierDown 1 = Throws
   \<and> dispatchNotification notifierDown (row 1 1 ''DAILY'' (Some 100) None None) (Some 90)
        (DroppedBy 10) emptyState = emptyState"
proof -
  have l: "loadProducts secondFetchThrows None = Returns threeRows"
    by (simp add: loadProducts_def secondFetchThrows_def sweepWorld_def)
  have t: "sendMessage notifierDown 1 = Throws"
    by (simp add: notifierDown_def sweepWorld_def)
  have len: "length threeRows = 3" by (simp add: threeRows_def)
  have p: "product_id (row 1 1 ''DAILY'' (Some 100) None None) = 1" by (simp add: row_def)
  from C10_counters_partition [where w = secondFetchThrows and t = 0 and iv = None
        and s = emptyState,
      THEN conjunct2, THEN conjunct2, THEN conjunct2, THEN conjunct2, THEN conjunct1] l len
  have a: "accounted (runPriceCheckByInterval secondFetchThrows 0 None emptyState) = 3"
    by simp
  from C10_counters_partition [where w = notifierDown
        and p = "row 1 1 ''DAILY'' (Some 100) None None" and s = emptyState
        and n = "Some 90" and r = "DroppedBy 10",
      THEN conjunct2, THEN conjunct2, THEN conjunct2, THEN conjunct2, THEN conjunct2,
      THEN conjunct1] t p
  have b: "dispatchNotification notifierDown (row 1 1 ''DAILY'' (Some 100) None None) (Some 90)
        (DroppedBy 10) emptyState = emptyState"
    by simp
  from l a t b show ?thesis by simp
qed

text \<open>
  Claim C4 says that a notification dispatch that throws increments a separate
  "notify failed" counter. The run statistics have no such counter, and the handler of
  the inner \<^verbatim>\<open>try\<close> only logs: in a sweep over one product whose alert cannot be sent,
  the statistics end as in the sweep where it is sent, except that
  \<open>notificationsSent\<close> stays 0, and the failing dispatch leaves every counter as it
  found it.
\<close>

theorem C4_no_notify_failed_counter:
  "sendMessage notifierDown 1 = Throws
   \<and> stats (runPriceCheckByInterval notifierDown 0 None emptyState)
       = \<lparr>lastRun = Some 0, productsChecked = 1, productsSkipped = 0, priceDrops = 1,
          notificationsSent = 0, errors = 0\<rparr>
   \<and> stats (runPriceCheckByInterval notifierUp 0 None emptyState)
       = \<lparr>lastRun = Some 0, productsChecked = 1, productsSkipped = 0, priceDrops = 1,
          notificationsSent = 1, errors = 0\<rparr>
   \<and> stats (dispatchNotification notifierDown (row 1 1 ''DAILY'' (Some 100) None None)
        (Some 90) (DroppedBy 10) emptyState) = stats emptyState"
  by (simp add: notifierDown_def notifierUp_def run_defs)

text \<open>
  Claim C4, amended. When the dispatch of a notification throws, the item still completes
  normally (the outer handler is not entered, so \<open>errors\<close> is unchanged), the price
  and the history entry written before stay written, \<open>productsChecked\<close> and
  \<open>priceDrops\<close> keep the increments made before the dispatch, and nothing else
  changes: no alert price is recorded, no message is delivered, and no counter is
  incremented for the failure.
\<close>

theorem C4_notifier_failure_isolated:
  assumes "eligible (isEligibleForCheck (clockAt w (product_id p)) u p)"
    and "scrapedData (scrapeWithRetry (scrapeAmazonProduct w (product_id p)) 1) = Some d"
    and "updateProductPrice w (product_id p) = Returns ()"
    and "addPriceHistory w (product_id p) = Returns ()"
    and "notify (shouldSendNotification p (current_price p) (price d))"
    and "sendMessage w (product_id p) = Throws"
  shows "processProduct w u p s
           = incPriceDrops (incChecked (writeHistory (product_id p) (price d)
               (writePrice (product_id p) (price d) (scraped_title d) s)))
       \<and> currentPrices (database (processProduct w u p s)) (product_id p) = price d
       \<and> priceHistory (database (processProduct w u p s))
           = priceHistory (database s) @ [(product_id p, price d)]
       \<and> lastAlertPrices (database (processProduct w u p s)) = lastAlertPrices (database s)
       \<and> delivered (processProduct w u p s) = delivered s
       \<and> stats (processProduct w u p s)
           = (stats s)\<lparr>productsChecked := productsChecked (stats s) + 1,
                        priceDrops := priceDrops (stats s) + 1\<rparr>"
proof -
  have eq: "processProduct w u p s
           = incPriceDrops (incChecked (writeHistory (product_id p) (price d)
               (writePrice (product_id p) (price d) (scraped_title d) s)))"
    using assms
    by (simp add: processProduct_def tryBody_persisted Let_def dispatchNotification_send_throws)
  show ?thesis
    unfolding eq by (simp add: counter_defs)
qed

theorem C4_notifier_failure_isolated_witness:
  "eligible (isEligibleForCheck (clockAt notifierDown 1)
       (mkUser (row 1 1 ''DAILY'' (Some 100) None None)) (row 1 1 ''DAILY'' (Some 100) None None))
   \<and> notify (shouldSendNotification (row 1 1 ''DAILY'' (Some 100) None None) (Some 100) (Some 90))
   \<and> sendMessage notifierDown 1 = Throws
   \<and> currentPrices (database (processProduct notifierDown
         (mkUser (row 1 1 ''DAILY'' (Some 100) None None))
         (row 1 1 ''DAILY'' (Some 100) None None) emptyState)) 1 = Some 90
   \<and> priceHistory (database (processProduct notifierDown
         (mkUser (row 1 1 ''DAILY'' (Some 100) None None))
         (row 1 1 ''DAILY'' (Some 100) None None) emptyState)) = [(1, Some 90)]
   \<and> stats (processProduct notifierDown
         (mkUser (row 1 1 ''DAILY'' (Some 100) None None))
         (row 1 1 ''DAILY'' (Some 100) None None) emptyState)
       = \<lparr>lastRun = None, productsChecked = 1, productsSkipped = 0, priceDrops = 1,
          notificationsSent = 0, errors = 0\<rparr>"
proof -
  let ?p = "row 1 1 ''DAILY'' (Some 100) None None"
  let ?d = "\<lparr>scraped_title = ''Item'', price = Some 90\<rparr>"
  have i: "product_id ?p = 1" "current_price ?p = Some 100" by (simp_all add: row_def)
  have e: "eligible (isEligibleForCheck (clockAt notifierDown (product_id ?p)) (mkUser ?p) ?p)"
    by (simp add: notifierDown_def run_defs)
  have f: "scrapedData (scrapeWithRetry (scrapeAmazonProduct notifierDown (product_id ?p)) 1) = Some ?d"
    by (simp add: notifierDown_def run_defs)
  have u: "updateProductPrice notifierDown (product_id ?p) = Returns ()"
    and h: "addPriceHistory notifierDown (product_id ?p) = Returns ()"
    and t: "sendMessage notifierDown (product_id ?p) = Throws"
    by (simp_all add: notifierDown_def sweepWorld_def)
  have n: "notify (shouldSendNotification ?p (current_price ?p) (price ?d))"
    by (simp add: shouldSendNotification_def row_def)
  from C4_notifier_failure_isolated [OF e f u h n t, of emptyState] e n t i
  show ?thesis by (simp add: emptyState_def counter_defs)
qed

lemma processProduct_fetch_throws:
  assumes "eligible (isEligibleForCheck (clockAt w (product_id q)) v q)"
    and "scrapeAmazonProduct w (product_id q) 0 = Throws"
    and "scrapeAmazonProduct w (product_id q) 1 = Throws"
  shows "processProduct w v q s = incErrors s"
proof -
  have "scrapedData (scrapeWithRetry (scrapeAmazonProduct w (product_id q)) 1) = None"
    using assms(2,3)
    by (simp add: scrapeWithRetry_def scrapeAttempts_done scrapeAttempts_miss)
  with assms(1) show ?thesis by (simp add: processProduct_def tryBody_no_price)
qed

text \<open>
  Claim C5. Whatever happens to the candidates processed before it (a fetch that throws
  on every attempt, a write that throws, a notification that fails), a later candidate
  that is eligible, whose fetch gives a price and whose writes succeed is processed:
  the sweep is the processing of the earlier candidates, then of this one, then of the
  later ones; its checked count goes up by one, its history entry is in the final
  history, and its price is the final current price unless a later candidate has the same
  id. A candidate whose fetch throws on both attempts only increments \<open>errors\<close>.
\<close>

theorem C5_sweep_isolation:
  assumes "loadProducts w iv = Returns products"
    and "candidates products = before @ (u, p) # after"
    and "eligible (isEligibleForCheck (clockAt w (product_id p)) u p)"
    and "scrapedData (scrapeWithRetry (scrapeAmazonProduct w (product_id p)) 1) = Some d"
    and "updateProductPrice w (product_id p) = Returns ()"
    and "addPriceHistory w (product_id p) = Returns ()"
  shows "runPriceCheckByInterval w t iv s
           = processAll w after (processProduct w u p
               (processAll w before (s\<lparr>stats := resetStats t\<rparr>)))
       \<and> productsChecked (stats (processProduct w u p
               (processAll w before (s\<lparr>stats := resetStats t\<rparr>))))
           = productsChecked (stats (processAll w before (s\<lparr>stats := resetStats t\<rparr>))) + 1
       \<and> (product_id p, price d)
           \<in> set (priceHistory (database (runPriceCheckByInterval w t iv s)))
       \<and> (product_id p \<notin> product_id ` snd ` set after \<longrightarrow>
            currentPrices (database (runPriceCheckByInterval w t iv s)) (product_id p) = price d)
       \<and> (eligible (isEligibleForCheck (clockAt w (product_id q)) v q)
            \<and> scrapeAmazonProduct w (product_id q) 0 = Throws
            \<and> scrapeAmazonProduct w (product_id q) 1 = Throws \<longrightarrow>
            processProduct w v q s' = incErrors s')"
proof -
  let ?s1 = "processAll w before (s\<lparr>stats := resetStats t\<rparr>)"
  let ?s2 = "processProduct w u p ?s1"
  have run: "runPriceCheckByInterval w t iv s = processAll w after ?s2"
    using assms(1,2) by (simp add: run_processAll processAll_append)
  have checked: "productsChecked (stats ?s2) = productsChecked (stats ?s1) + 1"
    using assms(3-6) by (rule processProduct_persisted(3))
  have hist: "priceHistory (database ?s2) = priceHistory (database ?s1) @ [(product_id p, price d)]"
    using assms(3-6) by (rule processProduct_persisted(2))
  from processAll_history_grows [of w after ?s2] obtain zs
    where "priceHistory (database (processAll w after ?s2)) = priceHistory (database ?s2) @ zs" ..
  with hist run
  have mem: "(product_id p, price d) \<in> set (priceHistory (database (runPriceCheckByInterval w t iv s)))"
    by simp
  have cur: "currentPrices (database ?s2) (product_id p) = price d"
    using assms(3-6) by (rule processProduct_persisted(1))
  have keep: "product_id p \<notin> product_id ` snd ` set after \<longrightarrow>
      currentPrices (database (runPriceCheckByInterval w t iv s)) (product_id p) = price d"
    using cur run by (simp add: processAll_other_price)
  from run checked mem keep processProduct_fetch_throws [of w q v s'] show ?thesis
    by (intro conjI impI) (assumption | simp)+
qed

theorem C5_sweep_isolation_witness:
  "loadProducts secondFetchThrows None = Returns threeRows
   \<and> scrapeAmazonProduct secondFetchThrows 2 0 = Throws
   \<and> scrapeAmazonProduct secondFetchThrows 2 1 = Throws
   \<and> stats (runPriceCheckByInterval secondFetchThrows 0 None emptyState)
       = \<lparr>lastRun = Some 0, productsChecked = 2, productsSkipped = 0, priceDrops = 2,
          notificationsSent = 2, errors = 1\<rparr>
   \<and> currentPrices (database (runPriceCheckByInterval secondFetchThrows 0 None emptyState)) 3
       = Some 90
   \<and> (3, Some 90)
       \<in> set (priceHistory (database (runPriceCheckByInterval secondFetchThrows 0 None emptyState)))"
proof -
  let ?r1 = "row 1 1 ''DAILY'' (Some 100) None None"
  let ?r2 = "row 2 2 ''DAILY'' (Some 200) None None"
  let ?r3 = "row 3 3 ''DAILY'' (Some 300) None None"
  let ?d = "\<lparr>scraped_title = ''Item'', price = Some 90\<rparr>"
  have l: "loadProducts secondFetchThrows None = Returns threeRows"
    by (simp add: loadProducts_def secondFetchThrows_def sweepWorld_def)
  have c: "candidates threeRows = [(mkUser ?r1, ?r1), (mkUser ?r2, ?r2)] @ (mkUser ?r3, ?r3) # []"
    by (simp add: candidates_def threeRows_def productsByUser_def objectKeys_def row_def)
  have i: "product_id ?r3 = 3" by (simp add: row_def)
  have e: "eligible (isEligibleForCheck (clockAt secondFetchThrows (product_id ?r3)) (mkUser ?r3) ?r3)"
    by (simp add: secondFetchThrows_def run_defs)
  have f: "scrapedData (scrapeWithRetry (scrapeAmazonProduct secondFetchThrows (product_id ?r3)) 1)
            = Some ?d"
    by (simp add: secondFetchThrows_def run_defs)
  have u: "updateProductPrice secondFetchThrows (product_id ?r3) = Returns ()"
    and h: "addPriceHistory secondFetchThrows (product_id ?r3) = Returns ()"
    by (simp_all add: secondFetchThrows_def sweepWorld_def)
  have th: "scrapeAmazonProduct secondFetchThrows 2 0 = Throws"
    "scrapeAmazonProduct secondFetchThrows 2 1 = Throws"
    by (simp_all add: secondFetchThrows_def sweepWorld_def)
  have st: "stats (runPriceCheckByInterval secondFetchThrows 0 None emptyState)
       = \<lparr>lastRun = Some 0, productsChecked = 2, productsSkipped = 0, priceDrops = 2,
          notificationsSent = 2, errors = 1\<rparr>"
    by (simp add: secondFetchThrows_def threeRows_def run_defs)
  note r = C5_sweep_isolation [OF l c e f u h, of 0 emptyState]
  from r [THEN conjunct2, THEN conjunct2, THEN conjunct1] i
  have m: "(3, Some 90)
       \<in> set (priceHistory (database (runPriceCheckByInterval secondFetchThrows 0 None emptyState)))"
    by simp
  from r [THEN conjunct2, THEN conjunct2, THEN conjunct2, THEN conjunct1] i
  have p: "currentPrices (database (runPriceCheckByInterval secondFetchThrows 0 None emptyState)) 3
       = Some 90"
    by simp
  from l th st p m show ?thesis by simp
qed

end
